theory Spec2Isabelle
  imports Complex_Main "HOL-Library.Sublist" "HOL-Library.AList"
begin

section \<open>Python values, exceptions and strings\<close>

text \<open>
  The three scripts \<^verbatim>\<open>map.py\<close>, \<^verbatim>\<open>map2.py\<close> and \<^verbatim>\<open>map3.py\<close> are embedded as
  HOL functions. Conventions used throughout:
  \<^item> the text of the input file is a \<^typ>\<open>string\<close>: the embedding covers files whose
    code points are below 256. A \<^verbatim>\<open>str\<close> that the decoder builds is the list of its
    code points, since an escape \<^verbatim>\<open>\uXXXX\<close> in such a file denotes any code point;
  \<^item> a Python \<^verbatim>\<open>int\<close> is an \<^typ>\<open>int\<close>;
  \<^item> a Python \<^verbatim>\<open>float\<close> is a binary64 number: a real that the format represents,
    a NaN or an infinity. Every operation rounds the exact result to the nearest
    number of the format, ties to even, and overflows to an infinity. The functions
    \<^verbatim>\<open>sin\<close>, \<^verbatim>\<open>cos\<close>, \<^verbatim>\<open>atan2\<close> and \<^verbatim>\<open>pow\<close> of the C library are taken with the
    correctly rounded result. The two zeros of the format are one value: the scripts
    pass a zero to no operation that tells them apart (\<^verbatim>\<open>atan2\<close> receives the square
    roots of a sum and of a difference from 1, neither of which is the negative zero);
  \<^item> a raised exception is the \<open>Inl\<close> side of a sum; \<^verbatim>\<open>print\<close> output is returned
    as a list of diagnostics;
  \<^item> the interpreter's resource limits (recursion depth, the digit limit of
    \<^verbatim>\<open>int\<close>, memory) are not modelled.
\<close>

datatype error =
  KeyError | TypeError | ValueError | AttributeError | ZeroDivisionError | OverflowError

datatype nonfinite = NaN | PosInfinity | NegInfinity

text \<open>
  What \<^verbatim>\<open>json.loads\<close> returns; a \<^verbatim>\<open>dict\<close> is its items in insertion order, a
  \<^verbatim>\<open>str\<close> its code points.
\<close>

datatype json =
    JNull
  | JBool bool
  | JInt int
  | JFloat real
  | JNonFinite nonfinite
  | JText "nat list"
  | JArr "json list"
  | JDict "(nat list \<times> json) list"

text \<open>The \<^verbatim>\<open>str\<close> and the \<^verbatim>\<open>dict\<close> written with characters below 256.\<close>

definition codes :: "string \<Rightarrow> nat list" where
  "codes s = map of_char s"

abbreviation JStr :: "string \<Rightarrow> json" where
  "JStr s \<equiv> JText (codes s)"

abbreviation JObj :: "(string \<times> json) list \<Rightarrow> json" where
  "JObj d \<equiv> JDict (map (\<lambda>kv. (codes (fst kv), snd kv)) d)"

text \<open>\<^verbatim>\<open>str.isspace\<close> on one character, for code points below 256.\<close>

definition py_isspace :: "char \<Rightarrow> bool" where
  "py_isspace c =
     (let n = (of_char c :: nat)
      in (9 \<le> n \<and> n \<le> 13) \<or> (28 \<le> n \<and> n \<le> 32) \<or> n = 133 \<or> n = 160)"

definition strip :: "string \<Rightarrow> string" where
  "strip s = rev (dropWhile py_isspace (rev (dropWhile py_isspace s)))"

text \<open>\<^verbatim>\<open>s.rstrip(',')\<close>\<close>

definition rstrip_commas :: "string \<Rightarrow> string" where
  "rstrip_commas s = rev (dropWhile (\<lambda>c. c = CHR '','') (rev s))"

definition startswith :: "string \<Rightarrow> char \<Rightarrow> bool" where
  "startswith s c = (case s of [] \<Rightarrow> False | x # _ \<Rightarrow> x = c)"

definition endswith :: "string \<Rightarrow> char \<Rightarrow> bool" where
  "endswith s c = (s \<noteq> [] \<and> last s = c)"

text \<open>\<^verbatim>\<open>s.split(":")\<close>: never empty, one more part than there are colons.\<close>

fun split_colon :: "string \<Rightarrow> string list" where
  "split_colon [] = [[]]"
| "split_colon (c # cs) =
     (if c = CHR '':'' then [] # split_colon cs
      else (c # hd (split_colon cs)) # tl (split_colon cs))"

definition is_digit :: "char \<Rightarrow> bool" where
  "is_digit c = (48 \<le> (of_char c :: nat) \<and> (of_char c :: nat) \<le> 57)"

definition digit_val :: "char \<Rightarrow> nat" where
  "digit_val c = of_char c - 48"

text \<open>
  \<^verbatim>\<open>int(s)\<close> in base ten: surrounding spaces, one optional sign, then digits, where
  single underscores may separate digits. \<open>None\<close> is \<^verbatim>\<open>ValueError\<close>.
  The spaces that \<^verbatim>\<open>int\<close> skips are fewer than those of \<^verbatim>\<open>str.strip\<close>: the
  conversion replaces the spaces above U+007F by U+0020 and then skips what the C
  library calls a space, which leaves out the separators U+001C to U+001F.
  \<open>int_digits\<close> reads what follows a digit.
\<close>

definition int_space :: "char \<Rightarrow> bool" where
  "int_space c =
     (let n = (of_char c :: nat)
      in (9 \<le> n \<and> n \<le> 13) \<or> n = 32 \<or> n = 133 \<or> n = 160)"

fun int_digits :: "string \<Rightarrow> nat \<Rightarrow> nat option" where
  "int_digits [] acc = Some acc"
| "int_digits (c # cs) acc =
     (if is_digit c then int_digits cs (10 * acc + digit_val c)
      else if c = CHR ''_'' then
        (case cs of
           [] \<Rightarrow> None
         | d # ds \<Rightarrow> if is_digit d then int_digits ds (10 * acc + digit_val d) else None)
      else None)"

definition unsigned_int :: "string \<Rightarrow> nat option" where
  "unsigned_int s =
     (case s of
        [] \<Rightarrow> None
      | d # ds \<Rightarrow> if is_digit d then int_digits ds (digit_val d) else None)"

definition py_int :: "string \<Rightarrow> int option" where
  "py_int s =
     (case rev (dropWhile int_space (rev (dropWhile int_space s))) of
        [] \<Rightarrow> None
      | c # cs \<Rightarrow>
          if c = CHR ''-'' then map_option (\<lambda>n. - int n) (unsigned_int cs)
          else if c = CHR ''+'' then map_option int (unsigned_int cs)
          else map_option int (unsigned_int (c # cs)))"

section \<open>\<^verbatim>\<open>map3.py\<close>: timestamps\<close>

text \<open>\<^verbatim>\<open>[int(p) for p in parts]\<close>: the first component that does not parse raises.\<close>

fun ints_of :: "string list \<Rightarrow> error + int list" where
  "ints_of [] = Inr []"
| "ints_of (p # ps) =
     (case py_int p of
        None \<Rightarrow> Inl ValueError
      | Some n \<Rightarrow> (case ints_of ps of Inl e \<Rightarrow> Inl e | Inr ns \<Rightarrow> Inr (n # ns)))"

text \<open>\<^verbatim>\<open>while len(parts) < 3: parts.insert(0, 0)\<close>\<close>

function pad_parts :: "int list \<Rightarrow> int list" where
  "pad_parts parts = (if length parts < 3 then pad_parts (0 # parts) else parts)"
  by pat_completeness auto
termination
  by (relation "measure (\<lambda>parts. 3 - length parts)") auto

declare pad_parts.simps [simp del]

text \<open>
  \<^verbatim>\<open>hours, minutes, seconds = parts\<close> raises \<^verbatim>\<open>ValueError\<close> unless there are
  exactly three parts.
\<close>

definition time_to_seconds :: "string \<Rightarrow> error + int" where
  "time_to_seconds t =
     (case ints_of (split_colon (strip t)) of
        Inl e \<Rightarrow> Inl e
      | Inr parts \<Rightarrow>
          (case pad_parts parts of
             [hours, minutes, seconds] \<Rightarrow> Inr (hours * 3600 + minutes * 60 + seconds)
           | _ \<Rightarrow> Inl ValueError))"

text \<open>
  A timestamp that the decoder built may hold code points above 255. The conversion
  reads of a character only whether it is a space, a decimal digit and which, or
  something else (\<^verbatim>\<open>int\<close> itself maps every space to U+0020 and every decimal digit
  to its ASCII digit before it parses). So such a code point is replaced by a character
  below 256 of the same kind: a space by U+00A0, a digit by its ASCII digit, anything
  else by U+00FF. The tables are those of Unicode 14: the spaces above U+00FF, and the
  first code point of each run of the ten digits 0 to 9.
\<close>

definition wide_spaces :: "nat list" where
  "wide_spaces =
     [5760, 8192, 8193, 8194, 8195, 8196, 8197, 8198, 8199, 8200, 8201, 8202, 8232, 8233,
      8239, 8287, 12288]"

definition digit_runs :: "nat list" where
  "digit_runs =
     [1632, 1776, 1984, 2406, 2534, 2662, 2790, 2918, 3046, 3174, 3302, 3430, 3558, 3664,
      3792, 3872, 4160, 4240, 6112, 6160, 6470, 6608, 6784, 6800, 6992, 7088, 7232, 7248,
      42528, 43216, 43264, 43472, 43504, 43600, 44016, 65296, 66720, 68912, 69734, 69872,
      69942, 70096, 70384, 70736, 70864, 71248, 71360, 71472, 71904, 72016, 72784, 73040,
      73120, 92768, 92864, 93008, 120782, 120792, 120802, 120812, 120822, 123200, 123632,
      125264, 130032]"

definition narrow :: "nat \<Rightarrow> char" where
  "narrow n =
     (if n < 256 then char_of n
      else if n \<in> set wide_spaces then CHR 0xA0
      else
        (case find (\<lambda>b. b \<le> n \<and> n < b + 10) digit_runs of
           Some b \<Rightarrow> char_of (48 + (n - b))
         | None \<Rightarrow> CHR 0xFF))"

section \<open>Floating-point numbers\<close>

text \<open>
  The numbers of the binary64 format are the multiples \<open>m * 2 ^ (e - 52)\<close> with
  \<open>\<bar>m\<bar> < 2 ^ 53\<close> and \<open>- 1022 \<le> e \<le> 1023\<close>. \<open>binade x\<close> is the exponent \<open>e\<close> that the
  format uses around \<open>x\<close>, \<open>ulp x\<close> the distance between neighbours there, and
  \<open>nearest x\<close> the multiple of it next to \<open>x\<close>, the even one on a tie.
\<close>

definition binade :: "real \<Rightarrow> int" where
  "binade x = (if x = 0 then - 1022 else max \<lfloor>log 2 \<bar>x\<bar>\<rfloor> (- 1022))"

definition ulp :: "real \<Rightarrow> real" where
  "ulp x = 2 powr real_of_int (binade x - 52)"

definition round_half_even :: "real \<Rightarrow> int" where
  "round_half_even y =
     (let f = \<lfloor>y\<rfloor>; r = y - of_int f
      in if r < 1 / 2 then f else if 1 / 2 < r then f + 1 else if even f then f else f + 1)"

definition nearest :: "real \<Rightarrow> real" where
  "nearest x = of_int (round_half_even (x / ulp x)) * ulp x"

datatype pyfloat = Finite real | NonFinite nonfinite

text \<open>Rounding to the format; what reaches \<open>2 ^ 1024\<close> is an infinity.\<close>

definition rnd :: "real \<Rightarrow> pyfloat" where
  "rnd x =
     (if 2 ^ 1024 \<le> \<bar>nearest x\<bar> then NonFinite (if 0 < x then PosInfinity else NegInfinity)
      else Finite (nearest x))"

definition float_json :: "pyfloat \<Rightarrow> json" where
  "float_json f = (case f of Finite x \<Rightarrow> JFloat x | NonFinite n \<Rightarrow> JNonFinite n)"

text \<open>The arithmetic of the format: a NaN spreads, infinities follow the sign rules.\<close>

definition fneg :: "pyfloat \<Rightarrow> pyfloat" where
  "fneg a =
     (case a of
        Finite x \<Rightarrow> Finite (- x)
      | NonFinite NaN \<Rightarrow> NonFinite NaN
      | NonFinite PosInfinity \<Rightarrow> NonFinite NegInfinity
      | NonFinite NegInfinity \<Rightarrow> NonFinite PosInfinity)"

definition fadd :: "pyfloat \<Rightarrow> pyfloat \<Rightarrow> pyfloat" where
  "fadd a b =
     (case (a, b) of
        (Finite x, Finite y) \<Rightarrow> rnd (x + y)
      | (Finite x, NonFinite n) \<Rightarrow> NonFinite n
      | (NonFinite m, Finite y) \<Rightarrow> NonFinite m
      | (NonFinite m, NonFinite n) \<Rightarrow> if m = n then NonFinite m else NonFinite NaN)"

definition fsub :: "pyfloat \<Rightarrow> pyfloat \<Rightarrow> pyfloat" where
  "fsub a b = fadd a (fneg b)"

text \<open>The sign of a number that is not a NaN.\<close>

definition fsign :: "pyfloat \<Rightarrow> int" where
  "fsign a =
     (case a of
        Finite x \<Rightarrow> (if 0 < x then 1 else if x < 0 then - 1 else 0)
      | NonFinite NegInfinity \<Rightarrow> - 1
      | NonFinite _ \<Rightarrow> 1)"

definition infinity :: "int \<Rightarrow> pyfloat" where
  "infinity s = NonFinite (if 0 < s then PosInfinity else NegInfinity)"

definition fmul :: "pyfloat \<Rightarrow> pyfloat \<Rightarrow> pyfloat" where
  "fmul a b =
     (case (a, b) of
        (Finite x, Finite y) \<Rightarrow> rnd (x * y)
      | _ \<Rightarrow>
          if a = NonFinite NaN \<or> b = NonFinite NaN \<or> fsign a * fsign b = 0 then NonFinite NaN
          else infinity (fsign a * fsign b))"

text \<open>
  \<^verbatim>\<open>a / b\<close> on floats raises on a zero divisor before anything else.
\<close>

definition fdiv :: "pyfloat \<Rightarrow> pyfloat \<Rightarrow> error + pyfloat" where
  "fdiv a b =
     (if b = Finite 0 then Inl ZeroDivisionError
      else Inr
        (case (a, b) of
           (Finite x, Finite y) \<Rightarrow> rnd (x / y)
         | (Finite x, NonFinite n) \<Rightarrow> (if n = NaN then NonFinite NaN else Finite 0)
         | (NonFinite m, Finite y) \<Rightarrow>
             (if m = NaN then NonFinite NaN else infinity (fsign a * fsign b))
         | (NonFinite m, NonFinite n) \<Rightarrow> NonFinite NaN))"

text \<open>
  \<^verbatim>\<open>x ** 2\<close> on a float: a result out of range raises \<^verbatim>\<open>OverflowError\<close>.
\<close>

definition fsquare :: "pyfloat \<Rightarrow> error + pyfloat" where
  "fsquare a =
     (case a of
        Finite x \<Rightarrow>
          (case rnd (x * x) of Finite y \<Rightarrow> Inr (Finite y) | NonFinite _ \<Rightarrow> Inl OverflowError)
      | NonFinite NaN \<Rightarrow> Inr (NonFinite NaN)
      | NonFinite _ \<Rightarrow> Inr (NonFinite PosInfinity))"

text \<open>
  The functions of the \<^verbatim>\<open>math\<close> module. \<^verbatim>\<open>math.sin\<close> and \<^verbatim>\<open>math.cos\<close> raise
  \<^verbatim>\<open>ValueError\<close> on an infinity, \<^verbatim>\<open>math.sqrt\<close> on a negative number; a NaN passes
  through all of them. \<^verbatim>\<open>math.atan2(y, x)\<close> is the angle of the point \<open>(x, y)\<close> in
  \<open>(-\<pi>, \<pi>]\<close>, and \<open>0\<close> at the origin.
\<close>

definition math_sin :: "pyfloat \<Rightarrow> error + pyfloat" where
  "math_sin a =
     (case a of
        Finite x \<Rightarrow> Inr (rnd (sin x))
      | NonFinite NaN \<Rightarrow> Inr (NonFinite NaN)
      | NonFinite _ \<Rightarrow> Inl ValueError)"

definition math_cos :: "pyfloat \<Rightarrow> error + pyfloat" where
  "math_cos a =
     (case a of
        Finite x \<Rightarrow> Inr (rnd (cos x))
      | NonFinite NaN \<Rightarrow> Inr (NonFinite NaN)
      | NonFinite _ \<Rightarrow> Inl ValueError)"

definition math_sqrt :: "pyfloat \<Rightarrow> error + pyfloat" where
  "math_sqrt a =
     (case a of
        Finite x \<Rightarrow> if x < 0 then Inl ValueError else Inr (rnd (sqrt x))
      | NonFinite NegInfinity \<Rightarrow> Inl ValueError
      | NonFinite n \<Rightarrow> Inr (NonFinite n))"

definition angle :: "real \<Rightarrow> real \<Rightarrow> real" where
  "angle y x =
     (if 0 < x then arctan (y / x)
      else if x < 0 then (if 0 \<le> y then arctan (y / x) + pi else arctan (y / x) - pi)
      else if 0 < y then pi / 2
      else if y < 0 then - (pi / 2)
      else 0)"

definition math_atan2 :: "pyfloat \<Rightarrow> pyfloat \<Rightarrow> pyfloat" where
  "math_atan2 a b =
     (case (a, b) of
        (Finite y, Finite x) \<Rightarrow> rnd (angle y x)
      | (Finite y, NonFinite n) \<Rightarrow>
          (case n of
             NaN \<Rightarrow> NonFinite NaN
           | PosInfinity \<Rightarrow> Finite 0
           | NegInfinity \<Rightarrow> rnd (if y < 0 then - pi else pi))
      | (NonFinite m, Finite x) \<Rightarrow>
          (case m of
             NaN \<Rightarrow> NonFinite NaN
           | PosInfinity \<Rightarrow> rnd (pi / 2)
           | NegInfinity \<Rightarrow> rnd (- (pi / 2)))
      | (NonFinite m, NonFinite n) \<Rightarrow>
          (if m = NaN \<or> n = NaN then NonFinite NaN
           else rnd ((if m = PosInfinity then 1 else - 1) *
                     (if n = PosInfinity then pi / 4 else 3 * pi / 4))))"

section \<open>\<^verbatim>\<open>map3.py\<close>: distance and speed\<close>

text \<open>Sequencing of computations that may raise.\<close>

definition ebind :: "error + 'a \<Rightarrow> ('a \<Rightarrow> error + 'b) \<Rightarrow> error + 'b" where
  "ebind m f = (case m of Inl e \<Rightarrow> Inl e | Inr x \<Rightarrow> f x)"

text \<open>
  The number a decoded value stands for in arithmetic: \<^verbatim>\<open>bool\<close> is a subtype of
  \<^verbatim>\<open>int\<close>; arithmetic on strings, lists, dicts or \<^verbatim>\<open>None\<close> raises \<^verbatim>\<open>TypeError\<close>.
\<close>

datatype number = IntNum int | FloatNum pyfloat

definition num :: "json \<Rightarrow> error + number" where
  "num v =
     (case v of
        JInt n \<Rightarrow> Inr (IntNum n)
      | JFloat x \<Rightarrow> Inr (FloatNum (Finite x))
      | JNonFinite n \<Rightarrow> Inr (FloatNum (NonFinite n))
      | JBool b \<Rightarrow> Inr (IntNum (if b then 1 else 0))
      | _ \<Rightarrow> Inl TypeError)"

text \<open>
  An \<^verbatim>\<open>int\<close> that meets a \<^verbatim>\<open>float\<close> is converted, rounded like any other number;
  one that is out of range raises \<^verbatim>\<open>OverflowError\<close>.
\<close>

definition to_float :: "number \<Rightarrow> error + pyfloat" where
  "to_float n =
     (case n of
        FloatNum f \<Rightarrow> Inr f
      | IntNum i \<Rightarrow>
          (case rnd (of_int i) of Finite x \<Rightarrow> Inr (Finite x) | NonFinite _ \<Rightarrow> Inl OverflowError))"

text \<open>\<^verbatim>\<open>a - b\<close>: exact on two integers, on floats otherwise.\<close>

definition num_sub :: "number \<Rightarrow> number \<Rightarrow> error + number" where
  "num_sub x y =
     (case (x, y) of
        (IntNum m, IntNum n) \<Rightarrow> Inr (IntNum (m - n))
      | _ \<Rightarrow> ebind (to_float x) (\<lambda>u. ebind (to_float y) (\<lambda>v. Inr (FloatNum (fsub u v)))))"

definition py_sub :: "json \<Rightarrow> json \<Rightarrow> error + number" where
  "py_sub a b = ebind (num a) (\<lambda>x. ebind (num b) (\<lambda>y. num_sub x y))"

text \<open>
  \<^verbatim>\<open>a / b\<close>: the quotient of two integers is rounded once, and one that is out of
  range raises \<^verbatim>\<open>OverflowError\<close>; otherwise both operands are converted first.
\<close>

definition truediv :: "number \<Rightarrow> number \<Rightarrow> error + pyfloat" where
  "truediv x y =
     (case (x, y) of
        (IntNum m, IntNum n) \<Rightarrow>
          if n = 0 then Inl ZeroDivisionError
          else
            (case rnd (of_int m / of_int n) of
               Finite q \<Rightarrow> Inr (Finite q)
             | NonFinite _ \<Rightarrow> Inl OverflowError)
      | _ \<Rightarrow> ebind (to_float x) (\<lambda>u. ebind (to_float y) (\<lambda>v. fdiv u v)))"

text \<open>
  \<^verbatim>\<open>math.radians(x)\<close> multiplies by the float \<^verbatim>\<open>pi / 180\<close>, where \<^verbatim>\<open>pi\<close> is itself
  the float next to \<open>\<pi>\<close>.
\<close>

definition deg_to_rad :: real where
  "deg_to_rad = nearest (nearest pi / 180)"

definition math_radians :: "number \<Rightarrow> error + pyfloat" where
  "math_radians x = ebind (to_float x) (\<lambda>f. Inr (fmul f (Finite deg_to_rad)))"

text \<open>
  \<^verbatim>\<open>haversine(lon1, lat1, lon2, lat2)\<close>, operation by operation in the order of
  evaluation. The integers 2, 1 and \<^verbatim>\<open>R = 6371\<close> convert to floats exactly.
\<close>

definition haversine :: "json \<Rightarrow> json \<Rightarrow> json \<Rightarrow> json \<Rightarrow> error + pyfloat" where
  "haversine lon1 lat1 lon2 lat2 =
     ebind (py_sub lat2 lat1) (\<lambda>dlat.
     ebind (math_radians dlat) (\<lambda>dLat.
     ebind (py_sub lon2 lon1) (\<lambda>dlon.
     ebind (math_radians dlon) (\<lambda>dLon.
     ebind (fdiv dLat (Finite 2)) (\<lambda>half_lat.
     ebind (math_sin half_lat) (\<lambda>s1.
     ebind (fsquare s1) (\<lambda>q1.
     ebind (num lat1) (\<lambda>n1.
     ebind (math_radians n1) (\<lambda>r1.
     ebind (math_cos r1) (\<lambda>c1.
     ebind (num lat2) (\<lambda>n2.
     ebind (math_radians n2) (\<lambda>r2.
     ebind (math_cos r2) (\<lambda>c2.
     ebind (fdiv dLon (Finite 2)) (\<lambda>half_lon.
     ebind (math_sin half_lon) (\<lambda>s2.
     ebind (fsquare s2) (\<lambda>q2.
     (let a = fadd q1 (fmul (fmul c1 c2) q2)
      in ebind (math_sqrt a) (\<lambda>sa.
         ebind (math_sqrt (fsub (Finite 1) a)) (\<lambda>sb.
         Inr (fmul (Finite 6371) (fmul (Finite 2) (math_atan2 sa sb))))))))))))))))))))))"

text \<open>\<^verbatim>\<open>p[k]\<close> and \<^verbatim>\<open>p.get(k, default)\<close>, for a key written in the script.\<close>

definition subscript :: "json \<Rightarrow> string \<Rightarrow> error + json" where
  "subscript p k =
     (case p of
        JDict d \<Rightarrow> (case map_of d (codes k) of None \<Rightarrow> Inl KeyError | Some v \<Rightarrow> Inr v)
      | _ \<Rightarrow> Inl TypeError)"

definition py_get :: "json \<Rightarrow> string \<Rightarrow> json \<Rightarrow> error + json" where
  "py_get p k dflt =
     (case p of
        JDict d \<Rightarrow> (case map_of d (codes k) of None \<Rightarrow> Inr dflt | Some v \<Rightarrow> Inr v)
      | _ \<Rightarrow> Inl AttributeError)"

text \<open>\<^verbatim>\<open>time_to_seconds\<close> applied to a decoded value: only a \<^verbatim>\<open>str\<close> has \<^verbatim>\<open>strip\<close>.\<close>

definition time_to_seconds_obj :: "json \<Rightarrow> error + int" where
  "time_to_seconds_obj v =
     (case v of JText t \<Rightarrow> time_to_seconds (map narrow t) | _ \<Rightarrow> Inl AttributeError)"

text \<open>
  \<^verbatim>\<open>dist = haversine(prev['lng'], prev['lat'], curr['lng'], curr['lat'])\<close>:
  the four subscripts are evaluated first, then the call.
\<close>

definition leg :: "json \<Rightarrow> json \<Rightarrow> error + pyfloat" where
  "leg prev cur =
     ebind (subscript prev ''lng'') (\<lambda>lng1.
     ebind (subscript prev ''lat'') (\<lambda>lat1.
     ebind (subscript cur ''lng'') (\<lambda>lng2.
     ebind (subscript cur ''lat'') (\<lambda>lat2.
     haversine lng1 lat1 lng2 lat2))))"

text \<open>
  \<^verbatim>\<open>dt = time_to_seconds(curr['timestamp']) - time_to_seconds(prev['timestamp'])\<close>,
  then \<^verbatim>\<open>dt = max(dt, 1)\<close>.
\<close>

definition elapsed :: "json \<Rightarrow> json \<Rightarrow> error + int" where
  "elapsed prev cur =
     ebind (subscript cur ''timestamp'') (\<lambda>tc.
     ebind (time_to_seconds_obj tc) (\<lambda>sc.
     ebind (subscript prev ''timestamp'') (\<lambda>tp.
     ebind (time_to_seconds_obj tp) (\<lambda>sp.
     Inr (max (sc - sp) 1)))))"

text \<open>
  One pass of the loop body, on the pair of lists built so far:
  \<^verbatim>\<open>distances.append(distances[-1] + dist)\<close>, then \<^verbatim>\<open>speed = (dist / dt) * 3600\<close>.
  The lists start with the integer 0.
\<close>

definition loop_body ::
  "json list \<Rightarrow> nat \<Rightarrow> number list \<times> number list \<Rightarrow> error + number list \<times> number list" where
  "loop_body hike_data i st =
     (let prev = hike_data ! (i - 1);
          cur = hike_data ! i
      in ebind (leg prev cur) (\<lambda>dist.
         ebind (to_float (last (fst st))) (\<lambda>total.
         ebind (elapsed prev cur) (\<lambda>dt.
         ebind (truediv (FloatNum dist) (IntNum dt)) (\<lambda>q.
         Inr (fst st @ [FloatNum (fadd total dist)],
              snd st @ [FloatNum (fmul q (Finite 3600))]))))))"

fun for_loop :: "(nat \<Rightarrow> 's \<Rightarrow> error + 's) \<Rightarrow> nat list \<Rightarrow> 's \<Rightarrow> error + 's" where
  "for_loop f [] st = Inr st"
| "for_loop f (i # rest) st = ebind (f i st) (for_loop f rest)"

text \<open>
  \<^verbatim>\<open>distances = [0]; speeds = [0]; for i in range(1, len(hike_data)): ...\<close>
  The indices \<open>i - 1\<close> and \<open>i\<close> are in range by the bounds of the loop.
\<close>

definition metrics :: "json list \<Rightarrow> error + number list \<times> number list" where
  "metrics hike_data =
     for_loop (loop_body hike_data) [1 ..< length hike_data] ([IntNum 0], [IntNum 0])"

section \<open>The decoder \<^verbatim>\<open>json.loads\<close>\<close>

text \<open>
  The three loaders call the standard decoder. It is modelled after the grammar the
  decoder accepts: tokens separated by optional JSON whitespace (space, tab, line
  feed, carriage return), read by a lexer, and a stack automaton that builds the value.
  \<open>None\<close> stands for \<^verbatim>\<open>JSONDecodeError\<close>.
\<close>

datatype token = LBrace | RBrace | LBracket | RBracket | Comma | Colon | Atom json

definition json_ws :: "char \<Rightarrow> bool" where
  "json_ws c = (c = CHR '' '' \<or> c = CHR 0x09 \<or> c = CHR 0x0A \<or> c = CHR 0x0D)"

definition hex_val :: "char \<Rightarrow> nat option" where
  "hex_val c =
     (let n = (of_char c :: nat)
      in if 48 \<le> n \<and> n \<le> 57 then Some (n - 48)
         else if 65 \<le> n \<and> n \<le> 70 then Some (n - 55)
         else if 97 \<le> n \<and> n \<le> 102 then Some (n - 87)
         else None)"

text \<open>The character after a backslash, other than \<open>u\<close>.\<close>

definition unescape :: "char \<Rightarrow> char option" where
  "unescape e =
     (if e = CHR 0x22 then Some (CHR 0x22)
      else if e = CHR 0x5C then Some (CHR 0x5C)
      else if e = CHR ''/'' then Some (CHR ''/'')
      else if e = CHR ''b'' then Some (CHR 0x08)
      else if e = CHR ''f'' then Some (CHR 0x0C)
      else if e = CHR ''n'' then Some (CHR 0x0A)
      else if e = CHR ''r'' then Some (CHR 0x0D)
      else if e = CHR ''t'' then Some (CHR 0x09)
      else None)"

definition hex4 :: "string \<Rightarrow> (nat \<times> string) option" where
  "hex4 s =
     (case s of
        a # b # c # d # rest \<Rightarrow>
          (case (hex_val a, hex_val b, hex_val c, hex_val d) of
             (Some x, Some y, Some z, Some w) \<Rightarrow> Some (((x * 16 + y) * 16 + z) * 16 + w, rest)
           | _ \<Rightarrow> None)
      | _ \<Rightarrow> None)"

definition push_char :: "char \<Rightarrow> (string \<times> string) option \<Rightarrow> (string \<times> string) option" where
  "push_char c r = map_option (\<lambda>(v, rest). (c # v, rest)) r"

definition push_code :: "nat \<Rightarrow> (nat list \<times> string) option \<Rightarrow> (nat list \<times> string) option" where
  "push_code n r = map_option (\<lambda>(v, rest). (n # v, rest)) r"

text \<open>
  A second escape \<^verbatim>\<open>\uXXXX\<close> that is the low half of a surrogate pair: its code and
  what follows it.
\<close>

definition low_surrogate :: "string \<Rightarrow> (nat \<times> string) option" where
  "low_surrogate s =
     (case s of
        b # u # rest \<Rightarrow>
          if b = CHR 0x5C \<and> u = CHR ''u'' then
            (case hex4 rest of
               None \<Rightarrow> None
             | Some (lo, rest') \<Rightarrow> if 0xDC00 \<le> lo \<and> lo \<le> 0xDFFF then Some (lo, rest') else None)
          else None
      | _ \<Rightarrow> None)"

lemma hex4_length: "hex4 s = Some (n, r) \<Longrightarrow> length r < length s"
  by (auto simp: hex4_def split: list.splits option.splits)

lemma low_surrogate_length: "low_surrogate s = Some (n, r) \<Longrightarrow> length r < length s"
  by (auto simp: low_surrogate_def split: list.splits option.splits if_splits dest: hex4_length)

text \<open>
  The text after an opening quote: the code points of the decoded string and what
  follows the closing quote. Control characters are refused inside a string. An escape
  \<^verbatim>\<open>\uXXXX\<close> gives the code point \<open>XXXX\<close>, and the high half of a surrogate pair that
  is followed by the low half gives the one code point of the pair.
\<close>

function scan_string :: "string \<Rightarrow> (nat list \<times> string) option" where
  "scan_string [] = None"
| "scan_string (c # cs) =
     (if c = CHR 0x22 then Some ([], cs)
      else if c = CHR 0x5C then
        (case cs of
           [] \<Rightarrow> None
         | e # es \<Rightarrow>
             if e = CHR ''u'' then
               (case hex4 es of
                  None \<Rightarrow> None
                | Some (code, rest) \<Rightarrow>
                    if 0xD800 \<le> code \<and> code \<le> 0xDBFF then
                      (case low_surrogate rest of
                         Some (lo, rest') \<Rightarrow>
                           push_code (0x10000 + (code - 0xD800) * 1024 + (lo - 0xDC00))
                             (scan_string rest')
                       | None \<Rightarrow> push_code code (scan_string rest))
                    else push_code code (scan_string rest))
             else
               (case unescape e of
                  None \<Rightarrow> None
                | Some ch \<Rightarrow> push_code (of_char ch) (scan_string es)))
      else if (of_char c :: nat) < 32 then None
      else push_code (of_char c) (scan_string cs))"
  by pat_completeness auto
termination
  by (relation "measure length")
    (auto dest!: hex4_length low_surrogate_length)

definition digits_val :: "string \<Rightarrow> nat" where
  "digits_val ds = foldl (\<lambda>n c. 10 * n + digit_val c) 0 ds"

text \<open>
  The optional exponent \<^verbatim>\<open>[eE][-+]?[0-9]+\<close>: its value and the rest, or nothing
  consumed.
\<close>

definition exponent :: "string \<Rightarrow> int option \<times> string" where
  "exponent s =
     (case s of
        e # r \<Rightarrow>
          if e = CHR ''e'' \<or> e = CHR ''E'' then
            (case r of
               g # ds \<Rightarrow>
                 if g = CHR ''-'' \<or> g = CHR ''+'' then
                   (case ds of
                      d # _ \<Rightarrow>
                        if is_digit d then
                          (Some ((if g = CHR ''-'' then - 1 else 1) *
                                 int (digits_val (takeWhile is_digit ds))),
                           dropWhile is_digit ds)
                        else (None, s)
                    | [] \<Rightarrow> (None, s))
                 else if is_digit g then
                   (Some (int (digits_val (takeWhile is_digit r))), dropWhile is_digit r)
                 else (None, s)
             | [] \<Rightarrow> (None, s))
          else (None, s)
      | [] \<Rightarrow> (None, s))"

text \<open>The optional fraction \<^verbatim>\<open>\.[0-9]+\<close>: its digits and the rest.\<close>

definition fraction :: "string \<Rightarrow> string \<times> string" where
  "fraction s =
     (case s of
        p # d # ds \<Rightarrow>
          if p = CHR ''.'' \<and> is_digit d
          then (takeWhile is_digit (d # ds), dropWhile is_digit (d # ds))
          else ([], s)
      | _ \<Rightarrow> ([], s))"

text \<open>
  A number \<^verbatim>\<open>-?(0|[1-9][0-9]*)(\.[0-9]+)?([eE][-+]?[0-9]+)?\<close> after its optional
  sign: an \<^verbatim>\<open>int\<close> without fraction and exponent, otherwise the \<^verbatim>\<open>float\<close> next to
  the number written, which is an infinity when that is out of range.
\<close>

definition unsigned_number :: "bool \<Rightarrow> string \<Rightarrow> (json \<times> string) option" where
  "unsigned_number neg s =
     (case s of
        [] \<Rightarrow> None
      | d # ds \<Rightarrow>
          if \<not> is_digit d then None
          else
            (let ip = (if d = CHR ''0'' then [d] else takeWhile is_digit s);
                 r1 = (if d = CHR ''0'' then ds else dropWhile is_digit s);
                 fp = fst (fraction r1);
                 r2 = snd (fraction r1);
                 ex = fst (exponent r2);
                 r3 = snd (exponent r2);
                 sign = (if neg then - 1 else 1)
             in if fp = [] \<and> ex = None then Some (JInt (sign * int (digits_val ip)), r3)
                else
                  (let e = (case ex of None \<Rightarrow> 0 | Some k \<Rightarrow> k)
                   in Some (float_json
                              (rnd (of_int sign * real (digits_val (ip @ fp)) * 10 ^ nat e /
                                    (10 ^ length fp * 10 ^ nat (- e)))), r3))))"

definition lex_number :: "string \<Rightarrow> (json \<times> string) option" where
  "lex_number s =
     (case s of
        [] \<Rightarrow> None
      | c # cs \<Rightarrow> if c = CHR ''-'' then unsigned_number True cs else unsigned_number False s)"

text \<open>The constants, the three non-finite ones included.\<close>

definition literal :: "string \<Rightarrow> (json \<times> string) option" where
  "literal s =
     (if take 4 s = ''null'' then Some (JNull, drop 4 s)
      else if take 4 s = ''true'' then Some (JBool True, drop 4 s)
      else if take 5 s = ''false'' then Some (JBool False, drop 5 s)
      else if take 3 s = ''NaN'' then Some (JNonFinite NaN, drop 3 s)
      else if take 8 s = ''Infinity'' then Some (JNonFinite PosInfinity, drop 8 s)
      else if take 9 s = ''-Infinity'' then Some (JNonFinite NegInfinity, drop 9 s)
      else None)"

definition atom :: "string \<Rightarrow> (json \<times> string) option" where
  "atom s =
     (case s of
        [] \<Rightarrow> None
      | c # cs \<Rightarrow>
          if c = CHR 0x22 then map_option (\<lambda>(v, rest). (JText v, rest)) (scan_string cs)
          else (case literal s of Some r \<Rightarrow> Some r | None \<Rightarrow> lex_number s))"

lemma scan_string_length: "scan_string s = Some (v, r) \<Longrightarrow> length r < length s"
proof (induction s arbitrary: v r rule: scan_string.induct)
  case 1
  then show ?case by simp
next
  case (2 c cs)
  then show ?case
    by (fastforce simp: push_code_def split: if_splits list.splits option.splits prod.splits
        dest: hex4_length low_surrogate_length)
qed

lemma exponent_length: "length (snd (exponent s)) \<le> length s"
  by (auto simp: exponent_def split: list.splits intro: le_trans [OF length_dropWhile_le])

lemma fraction_length: "length (snd (fraction s)) \<le> length s"
  by (auto simp: fraction_def split: list.splits intro: le_trans [OF length_dropWhile_le])

lemma unsigned_number_length: "unsigned_number neg s = Some (v, r) \<Longrightarrow> length r < length s"
proof -
  assume a: "unsigned_number neg s = Some (v, r)"
  then obtain d ds where s: "s = d # ds" and d: "is_digit d"
    by (auto simp: unsigned_number_def split: list.splits if_splits)
  define r1 where "r1 = (if d = CHR ''0'' then ds else dropWhile is_digit s)"
  have r1: "length r1 < length s"
    using s d length_dropWhile_le [of is_digit ds] by (simp add: r1_def)
  from a s d have "r = snd (exponent (snd (fraction r1)))"
    by (auto simp: unsigned_number_def Let_def r1_def split: if_splits)
  then have "length r \<le> length r1"
    using exponent_length [of "snd (fraction r1)"] fraction_length [of r1] by simp
  with r1 show ?thesis by simp
qed

lemma lex_number_length: "lex_number s = Some (v, r) \<Longrightarrow> length r < length s"
  by (auto simp: lex_number_def split: list.splits if_splits dest: unsigned_number_length)

lemma literal_length: "literal s = Some (v, r) \<Longrightarrow> length r < length s"
  by (cases s) (auto simp: literal_def split: if_splits)

lemma atom_length: "atom s = Some (v, r) \<Longrightarrow> length r < length s"
  by (auto simp: atom_def split: list.splits if_splits option.splits
      dest: scan_string_length literal_length lex_number_length)

function lex :: "string \<Rightarrow> token list option" where
  "lex [] = Some []"
| "lex (c # cs) =
     (if json_ws c then lex cs
      else if c = CHR ''{'' then map_option (Cons LBrace) (lex cs)
      else if c = CHR ''}'' then map_option (Cons RBrace) (lex cs)
      else if c = CHR ''['' then map_option (Cons LBracket) (lex cs)
      else if c = CHR '']'' then map_option (Cons RBracket) (lex cs)
      else if c = CHR '','' then map_option (Cons Comma) (lex cs)
      else if c = CHR '':'' then map_option (Cons Colon) (lex cs)
      else
        (case atom (c # cs) of
           None \<Rightarrow> None
         | Some (v, rest) \<Rightarrow> map_option (Cons (Atom v)) (lex rest)))"
  by pat_completeness auto
termination
  by (relation "measure length") (auto dest: atom_length)

text \<open>
  The automaton. A frame is an array with its elements so far, an object with its
  items so far, or an object whose next key has been read. Storing a key again
  replaces its value and keeps its place, as \<^verbatim>\<open>dict\<close> does.
\<close>

datatype frame =
    ArrayFrame "json list"
  | ObjectFrame "(nat list \<times> json) list"
  | MemberFrame "(nat list \<times> json) list" "nat list"

datatype pstate =
    WantValue | WantValueOrClose | WantKeyOrClose | WantKey | WantColon | WantCommaOrClose
  | Done json

definition deliver :: "json \<Rightarrow> frame list \<Rightarrow> (pstate \<times> frame list) option" where
  "deliver v st =
     (case st of
        [] \<Rightarrow> Some (Done v, [])
      | ArrayFrame xs # rest \<Rightarrow> Some (WantCommaOrClose, ArrayFrame (xs @ [v]) # rest)
      | MemberFrame d k # rest \<Rightarrow> Some (WantCommaOrClose, ObjectFrame (AList.update k v d) # rest)
      | ObjectFrame d # rest \<Rightarrow> None)"

definition open_value :: "token \<Rightarrow> frame list \<Rightarrow> (pstate \<times> frame list) option" where
  "open_value t st =
     (case t of
        Atom v \<Rightarrow> deliver v st
      | LBracket \<Rightarrow> Some (WantValueOrClose, ArrayFrame [] # st)
      | LBrace \<Rightarrow> Some (WantKeyOrClose, ObjectFrame [] # st)
      | _ \<Rightarrow> None)"

definition take_key :: "token \<Rightarrow> frame list \<Rightarrow> (pstate \<times> frame list) option" where
  "take_key t st =
     (case t of
        Atom (JText k) \<Rightarrow>
          (case st of
             ObjectFrame d # rest \<Rightarrow> Some (WantColon, MemberFrame d k # rest)
           | _ \<Rightarrow> None)
      | _ \<Rightarrow> None)"

definition close_array :: "frame list \<Rightarrow> (pstate \<times> frame list) option" where
  "close_array st = (case st of ArrayFrame xs # rest \<Rightarrow> deliver (JArr xs) rest | _ \<Rightarrow> None)"

definition close_object :: "frame list \<Rightarrow> (pstate \<times> frame list) option" where
  "close_object st = (case st of ObjectFrame d # rest \<Rightarrow> deliver (JDict d) rest | _ \<Rightarrow> None)"

definition pda_step :: "pstate \<times> frame list \<Rightarrow> token \<Rightarrow> (pstate \<times> frame list) option" where
  "pda_step c t =
     (case fst c of
        WantValue \<Rightarrow> open_value t (snd c)
      | WantValueOrClose \<Rightarrow> if t = RBracket then close_array (snd c) else open_value t (snd c)
      | WantKeyOrClose \<Rightarrow> if t = RBrace then close_object (snd c) else take_key t (snd c)
      | WantKey \<Rightarrow> take_key t (snd c)
      | WantColon \<Rightarrow> if t = Colon then Some (WantValue, snd c) else None
      | WantCommaOrClose \<Rightarrow>
          (case snd c of
             ArrayFrame xs # rest \<Rightarrow>
               if t = Comma then Some (WantValue, snd c)
               else if t = RBracket then close_array (snd c)
               else None
           | ObjectFrame d # rest \<Rightarrow>
               if t = Comma then Some (WantKey, snd c)
               else if t = RBrace then close_object (snd c)
               else None
           | _ \<Rightarrow> None)
      | Done v \<Rightarrow> None)"

fun pda_run :: "pstate \<times> frame list \<Rightarrow> token list \<Rightarrow> json option" where
  "pda_run c [] = (case fst c of Done v \<Rightarrow> Some v | _ \<Rightarrow> None)"
| "pda_run c (t # ts) = (case pda_step c t of None \<Rightarrow> None | Some c' \<Rightarrow> pda_run c' ts)"

definition json_loads :: "string \<Rightarrow> json option" where
  "json_loads s = (case lex s of None \<Rightarrow> None | Some ts \<Rightarrow> pda_run (WantValue, []) ts)"
section \<open>\<^verbatim>\<open>map.py\<close> and \<^verbatim>\<open>map2.py\<close>: scanning for fragments\<close>

text \<open>
  The lookahead \<^verbatim>\<open>(?=\s*,\s*\{|$)\<close> of \<^verbatim>\<open>map.py\<close>: whitespace, a comma, whitespace
  and an opening brace follow, or the text ends here (\<^verbatim>\<open>$\<close> also matches before a
  final line feed).
\<close>

definition lookahead :: "string \<Rightarrow> bool" where
  "lookahead rest =
     ((case dropWhile py_isspace rest of
         [] \<Rightarrow> False
       | c # r \<Rightarrow>
           c = CHR '','' \<and>
           (case dropWhile py_isspace r of [] \<Rightarrow> False | d # _ \<Rightarrow> d = CHR ''{''))
      \<or> rest = [] \<or> rest = [CHR 0x0A])"

text \<open>
  \<^verbatim>\<open>.*?\}\<close> followed by the lookahead, with \<^verbatim>\<open>re.DOTALL\<close>: the shortest run of any
  characters up to a closing brace after which the lookahead holds. The result is the
  matched text and the rest.
\<close>

fun lazy_close :: "string \<Rightarrow> (string \<times> string) option" where
  "lazy_close [] = None"
| "lazy_close (c # cs) =
     (if c = CHR ''}'' \<and> lookahead cs then Some ([c], cs)
      else push_char c (lazy_close cs))"

lemma lazy_close_length: "lazy_close s = Some (m, r) \<Longrightarrow> length r < length s"
  by (induction s arbitrary: m r) (fastforce simp: push_char_def split: if_splits)+

text \<open>
  \<^verbatim>\<open>re.findall(r'\{.*?\}(?=\s*,\s*\{|$)', content, re.DOTALL)\<close>: the matches from left
  to right, each search starting where the previous match ended, or one character
  further where there is no match.
\<close>

function findall_lazy :: "string \<Rightarrow> string list" where
  "findall_lazy [] = []"
| "findall_lazy (c # cs) =
     (if c = CHR ''{'' then
        (case lazy_close cs of
           Some (m, rest) \<Rightarrow> (c # m) # findall_lazy rest
         | None \<Rightarrow> findall_lazy cs)
      else findall_lazy cs)"
  by pat_completeness auto
termination
  by (relation "measure length") (auto dest: lazy_close_length)

definition not_brace :: "char \<Rightarrow> bool" where
  "not_brace c = (c \<noteq> CHR ''{'' \<and> c \<noteq> CHR ''}'')"

text \<open>\<^verbatim>\<open>re.findall(r'\{[^{}]*\}', content)\<close> of \<^verbatim>\<open>map2.py\<close>.\<close>

function findall_flat :: "string \<Rightarrow> string list" where
  "findall_flat [] = []"
| "findall_flat (c # cs) =
     (if c = CHR ''{'' then
        (case dropWhile not_brace cs of
           [] \<Rightarrow> findall_flat cs
         | d # rest \<Rightarrow>
             if d = CHR ''}'' then (c # takeWhile not_brace cs @ [d]) # findall_flat rest
             else findall_flat cs)
      else findall_flat cs)"
  by pat_completeness auto
termination
proof (relation "measure length")
  fix c :: char and cs :: string and d :: char and rest :: string
  assume "dropWhile not_brace cs = d # rest"
  then have "length (d # rest) \<le> length cs"
    using length_dropWhile_le [of not_brace cs] by simp
  then show "(rest, c # cs) \<in> measure length"
    by simp
qed auto

section \<open>\<^verbatim>\<open>map.py\<close> and \<^verbatim>\<open>map2.py\<close>: decoding the fragments\<close>

datatype message =
    Skipping string  \<comment> \<open>\<^verbatim>\<open>Skipping malformed object:\<close> with the first 100 characters\<close>
  | JSON_error       \<comment> \<open>\<^verbatim>\<open>JSON error:\<close> of \<^verbatim>\<open>map3.py\<close>\<close>

text \<open>
  The loop over the fragments, the same in both scripts, on the pair of the list
  \<^verbatim>\<open>data\<close> and the lines printed so far. The text of the decoder's error is not
  part of the model.
\<close>

fun decode_objects ::
  "string list \<Rightarrow> json list \<times> message list \<Rightarrow> json list \<times> message list" where
  "decode_objects [] st = st"
| "decode_objects (obj # rest) st =
     (let obj1 = strip obj
      in if \<not> startswith obj1 (CHR ''{'') then decode_objects rest st
         else
           (let obj2 = (if \<not> endswith obj1 (CHR ''}'') then obj1 @ ''}'' else obj1)
            in case json_loads obj2 of
                 Some v \<Rightarrow> decode_objects rest (fst st @ [v], snd st)
               | None \<Rightarrow> decode_objects rest (fst st, snd st @ [Skipping (take 100 obj2)])))"

text \<open>\<^verbatim>\<open>v != 0\<close>: only the integer, the float and the boolean zero are equal to 0.\<close>

definition ne_zero :: "json \<Rightarrow> bool" where
  "ne_zero v = (case v of JInt n \<Rightarrow> n \<noteq> 0 | JFloat x \<Rightarrow> x \<noteq> 0 | JBool b \<Rightarrow> b | _ \<Rightarrow> True)"

text \<open>A list comprehension with a condition that may raise.\<close>

fun filter_err :: "('a \<Rightarrow> error + bool) \<Rightarrow> 'a list \<Rightarrow> error + 'a list" where
  "filter_err p [] = Inr []"
| "filter_err p (x # xs) =
     ebind (p x) (\<lambda>b. ebind (filter_err p xs) (\<lambda>ys. Inr (if b then x # ys else ys)))"

text \<open>\<^verbatim>\<open>point['lat'] != 0 or point['lng'] != 0\<close> of \<^verbatim>\<open>map.py\<close>\<close>

definition keep_map :: "json \<Rightarrow> error + bool" where
  "keep_map point =
     ebind (subscript point ''lat'') (\<lambda>lat.
       if ne_zero lat then Inr True
       else ebind (subscript point ''lng'') (\<lambda>lng. Inr (ne_zero lng)))"

text \<open>\<^verbatim>\<open>point.get('lat', 1) != 0 or point.get('lng', 1) != 0\<close> of \<^verbatim>\<open>map2.py\<close>\<close>

definition keep_map2 :: "json \<Rightarrow> error + bool" where
  "keep_map2 point =
     ebind (py_get point ''lat'' (JInt 1)) (\<lambda>lat.
       if ne_zero lat then Inr True
       else ebind (py_get point ''lng'' (JInt 1)) (\<lambda>lng. Inr (ne_zero lng)))"

text \<open>
  The loaders take the text of the file and return what they printed and either the
  exception that ended them or the list they return.
\<close>

definition load_hike_data :: "string \<Rightarrow> message list \<times> (error + json list)" where
  "load_hike_data file_text =
     (let content = rstrip_commas (strip file_text);
          json_objects = findall_lazy content;
          st = decode_objects json_objects ([], [])
      in (snd st, filter_err keep_map (fst st)))"

definition load_data_map2 :: "string \<Rightarrow> message list \<times> (error + json list)" where
  "load_data_map2 file_text =
     (let content = rstrip_commas (strip file_text);
          json_objects = findall_flat content;
          st = decode_objects json_objects ([], [])
      in (snd st, filter_err keep_map2 (fst st)))"

section \<open>\<^verbatim>\<open>map3.py\<close>: decoding the whole text\<close>

text \<open>
  \<^verbatim>\<open>isinstance(p, dict) and 'lat' in p and 'lng' in p and (p['lat'] != 0 or p['lng'] != 0)\<close>
\<close>

definition keep_map3 :: "json \<Rightarrow> bool" where
  "keep_map3 p =
     (case p of
        JDict d \<Rightarrow>
          (case map_of d (codes ''lat'') of
             None \<Rightarrow> False
           | Some lat \<Rightarrow>
               (case map_of d (codes ''lng'') of
                  None \<Rightarrow> False
                | Some lng \<Rightarrow> ne_zero lat \<or> ne_zero lng))
      | _ \<Rightarrow> False)"

text \<open>
  \<^verbatim>\<open>for p in data\<close>: a list gives its elements, a dict its keys, a string its
  characters; nothing else can be iterated.
\<close>

definition py_iter :: "json \<Rightarrow> error + json list" where
  "py_iter v =
     (case v of
        JArr xs \<Rightarrow> Inr xs
      | JDict d \<Rightarrow> Inr (map (\<lambda>kv. JText (fst kv)) d)
      | JText s \<Rightarrow> Inr (map (\<lambda>c. JText [c]) s)
      | _ \<Rightarrow> Inl TypeError)"

definition wrap_text :: "string \<Rightarrow> string" where
  "wrap_text file_text =
     (let text = strip file_text;
          text = (if endswith text (CHR '','') then butlast text else text)
      in ''['' @ text @ '']'')"

definition load_data_map3 :: "string \<Rightarrow> message list \<times> (error + json list)" where
  "load_data_map3 file_text =
     (case json_loads (wrap_text file_text) of
        None \<Rightarrow> ([JSON_error], Inr [])
      | Some data \<Rightarrow> ([], ebind (py_iter data) (\<lambda>ps. Inr (filter keep_map3 ps))))"
section \<open>\<^verbatim>\<open>map.py\<close>: altitudes and the colour scale\<close>

text \<open>A list comprehension whose expression may raise.\<close>


fun map_err :: "('a \<Rightarrow> error + 'b) \<Rightarrow> 'a list \<Rightarrow> error + 'b list" where
  "map_err f [] = Inr []"
| "map_err f (x # xs) = ebind (f x) (\<lambda>y. ebind (map_err f xs) (\<lambda>ys. Inr (y # ys)))"

text \<open>\<^verbatim>\<open>[p["altitude"] for p in hike_data]\<close> of \<^verbatim>\<open>map.py\<close>\<close>

definition altitudes_map :: "json list \<Rightarrow> error + json list" where
  "altitudes_map hike_data = map_err (\<lambda>p. subscript p ''altitude'') hike_data"

text \<open>\<^verbatim>\<open>[p.get('altitude', 0) for p in hike_data]\<close> of \<^verbatim>\<open>map2.py\<close> and \<^verbatim>\<open>map3.py\<close>\<close>

definition altitudes_get :: "json list \<Rightarrow> error + json list" where
  "altitudes_get hike_data = map_err (\<lambda>p. py_get p ''altitude'' (JInt 0)) hike_data"

text \<open>
  \<^verbatim>\<open>get_color(alt)\<close> with the globals \<^verbatim>\<open>min_alt\<close> and \<^verbatim>\<open>max_alt\<close> as arguments:
  \<^verbatim>\<open>normalized = (alt - min_alt) / (max_alt - min_alt)\<close>, and the result is the hue
  \<^verbatim>\<open>120 * (1 - normalized)\<close> that the function formats into the string
  \<^verbatim>\<open>hsl(..., 100%, 50%)\<close>.
\<close>

definition get_color :: "json \<Rightarrow> json \<Rightarrow> json \<Rightarrow> error + pyfloat" where
  "get_color min_alt max_alt alt =
     ebind (py_sub alt min_alt) (\<lambda>rise.
     ebind (py_sub max_alt min_alt) (\<lambda>span.
     ebind (truediv rise span) (\<lambda>normalized.
     Inr (fmul (Finite 120) (fsub (Finite 1) normalized)))))"

section \<open>Sequencing\<close>

lemma ebind_Inr_iff: "ebind m f = Inr y \<longleftrightarrow> (\<exists>x. m = Inr x \<and> f x = Inr y)"
  by (cases m) (simp_all add: ebind_def)

lemma ebind_Inl_iff: "ebind m f = Inl e \<longleftrightarrow> m = Inl e \<or> (\<exists>x. m = Inr x \<and> f x = Inl e)"
  by (cases m) (simp_all add: ebind_def)

lemma not_isl_iff: "\<not> isl m \<longleftrightarrow> (\<exists>y. m = Inr y)"
  by (cases m) simp_all

section \<open>Properties of the timestamp conversion\<close>

lemma pad_parts_1: "pad_parts [s] = [0, 0, s]"
  by (simp add: pad_parts.simps)

lemma pad_parts_2: "pad_parts [m, s] = [0, m, s]"
  by (simp add: pad_parts.simps)

lemma pad_parts_3: "pad_parts [h, m, s] = [h, m, s]"
  by (simp add: pad_parts.simps)

lemma pad_parts_long: "3 \<le> length parts \<Longrightarrow> pad_parts parts = parts"
  by (simp add: pad_parts.simps)

text \<open>
  Claim C2 (as amended). The converter strips the timestamp and splits it on \<open>:\<close>.
  When the components all parse as integers it returns the seconds alone for one
  component, \<open>minutes * 60 + seconds\<close> for two (hours = 0) and
  \<open>hours * 3600 + minutes * 60 + seconds\<close> for three.
\<close>

theorem time_to_seconds_forms:
  "(split_colon (strip t) = [s] \<and> py_int s = Some sec
      \<longrightarrow> time_to_seconds t = Inr sec) \<and>
   (split_colon (strip t) = [m, s] \<and> py_int m = Some mins \<and> py_int s = Some sec
      \<longrightarrow> time_to_seconds t = Inr (mins * 60 + sec)) \<and>
   (split_colon (strip t) = [h, m, s] \<and> py_int h = Some hrs \<and> py_int m = Some mins \<and>
    py_int s = Some sec
      \<longrightarrow> time_to_seconds t = Inr (hrs * 3600 + mins * 60 + sec))"
  by (simp add: time_to_seconds_def pad_parts_1 pad_parts_2 pad_parts_3)

lemmas eval_text = strip_def py_isspace_def int_space_def py_int_def unsigned_int_def is_digit_def
  digit_val_def

theorem time_to_seconds_forms_witness:
  "time_to_seconds ''30'' = Inr 30 \<and>
   time_to_seconds ''05:30'' = Inr 330 \<and>
   time_to_seconds ''01:05:30'' = Inr 3930"
proof -
  have one: "split_colon (strip ''30'') = [''30''] \<and> py_int ''30'' = Some 30"
    by (simp add: eval_text)
  have two: "split_colon (strip ''05:30'') = [''05'', ''30''] \<and>
             py_int ''05'' = Some 5 \<and> py_int ''30'' = Some 30"
    by (simp add: eval_text)
  have three: "split_colon (strip ''01:05:30'') = [''01'', ''05'', ''30''] \<and>
               py_int ''01'' = Some 1 \<and> py_int ''05'' = Some 5 \<and> py_int ''30'' = Some 30"
    by (simp add: eval_text)
  from one have "time_to_seconds ''30'' = Inr 30"
    using time_to_seconds_forms [where t = "''30''" and s = "''30''" and sec = 30] by blast
  moreover from two have "time_to_seconds ''05:30'' = Inr (5 * 60 + 30)"
    using time_to_seconds_forms
      [where t = "''05:30''" and m = "''05''" and s = "''30''" and mins = 5 and sec = 30] by blast
  moreover from three have "time_to_seconds ''01:05:30'' = Inr (1 * 3600 + 5 * 60 + 30)"
    using time_to_seconds_forms
      [where t = "''01:05:30''" and h = "''01''" and m = "''05''" and s = "''30''"
         and hrs = 1 and mins = 5 and sec = 30]
    by blast
  ultimately show ?thesis by simp
qed

text \<open>
  Claim C2 as stated fails. A component that is not a number makes \<^verbatim>\<open>int\<close> raise and
  nothing catches it, so the timestamp \<^verbatim>\<open>"bad"\<close> is not read as 0 seconds; and a
  timestamp of one component is padded to \<open>0:0:s\<close> by the loop, not read as 0 seconds.
\<close>

theorem time_to_seconds_no_fallback:
  "time_to_seconds ''bad'' = Inl ValueError \<and> time_to_seconds ''30'' = Inr 30"
  by (simp add: time_to_seconds_def eval_text pad_parts_1)

text \<open>More than three components do not unpack into hours, minutes and seconds.\<close>

lemma time_to_seconds_four_parts:
  "time_to_seconds ''1:2:3:4'' = Inl ValueError"
  by (simp add: time_to_seconds_def eval_text pad_parts_long)


text \<open>
  The separators U+001C to U+001F are spaces for \<^verbatim>\<open>strip\<close> and not for \<^verbatim>\<open>int\<close>: at
  the end of the timestamp they are stripped, next to a colon they make \<^verbatim>\<open>int\<close> raise.
\<close>

lemma int_keeps_separators:
  "py_int (''05'' @ [CHR 0x1C]) = None \<and>
   time_to_seconds (''05:30'' @ [CHR 0x1C]) = Inr 330 \<and>
   time_to_seconds (''05'' @ [CHR 0x1C] @ '':30'') = Inl ValueError"
  by (simp add: time_to_seconds_def eval_text pad_parts_2)

section \<open>Properties of rounding\<close>

lemma round_half_even_int [simp]: "round_half_even (of_int k) = k"
  by (simp add: round_half_even_def)

lemma round_half_even_cases:
  "round_half_even y = \<lfloor>y\<rfloor> \<or> round_half_even y = \<lfloor>y\<rfloor> + 1"
  by (simp add: round_half_even_def Let_def)

lemma round_half_even_ge: "\<lfloor>y\<rfloor> \<le> round_half_even y"
  using round_half_even_cases [of y] by auto

lemma round_half_even_le: "round_half_even y \<le> \<lfloor>y\<rfloor> + 1"
  using round_half_even_cases [of y] by auto

lemma round_half_even_mono:
  assumes "x \<le> y"
  shows "round_half_even x \<le> round_half_even y"
proof (cases "\<lfloor>x\<rfloor> = \<lfloor>y\<rfloor>")
  case True
  with assms show ?thesis
    by (auto simp: round_half_even_def Let_def)
next
  case False
  with assms have "\<lfloor>x\<rfloor> < \<lfloor>y\<rfloor>"
    using floor_mono [of x y] by simp
  then have "round_half_even x \<le> \<lfloor>y\<rfloor>"
    using round_half_even_le [of x] by simp
  with round_half_even_ge [of y] show ?thesis by simp
qed

lemma round_half_even_minus: "round_half_even (- y) = - round_half_even y"
proof (cases "y = of_int \<lfloor>y\<rfloor>")
  case True
  then obtain k where "y = of_int k" ..
  then have "- y = of_int (- k)" by simp
  then show ?thesis
    using \<open>y = of_int k\<close> by (simp only: round_half_even_int)
next
  case False
  then have lt: "of_int \<lfloor>y\<rfloor> < y"
    by (auto simp: less_le)
  have fl: "\<lfloor>- y\<rfloor> = - \<lfloor>y\<rfloor> - 1"
  proof (rule floor_unique)
    show "of_int (- \<lfloor>y\<rfloor> - 1) \<le> - y"
      using real_of_int_floor_add_one_gt [of y] by linarith
    show "- y < of_int (- \<lfloor>y\<rfloor> - 1) + 1"
      using lt by simp
  qed
  show ?thesis
    unfolding round_half_even_def Let_def fl
    using lt by (auto simp: algebra_simps)
qed

lemma binade_minus [simp]: "binade (- x) = binade x"
  by (simp add: binade_def)

lemma ulp_minus [simp]: "ulp (- x) = ulp x"
  by (simp add: ulp_def)

lemma ulp_pos [simp]: "0 < ulp x"
  by (simp add: ulp_def)

lemma ulp_nonneg [simp]: "0 \<le> ulp x"
  by (simp add: ulp_def)

lemma round_half_even_small:
  assumes "\<bar>y\<bar> < 1 / 2"
  shows "round_half_even y = 0"
proof (cases "0 \<le> y")
  case True
  then have "\<lfloor>y\<rfloor> = 0"
    using assms by (intro floor_unique) simp_all
  then show ?thesis
    using assms True by (simp add: round_half_even_def Let_def)
next
  case False
  then have "\<lfloor>y\<rfloor> = - 1"
    using assms by (intro floor_unique) simp_all
  then show ?thesis
    using assms False by (simp add: round_half_even_def Let_def)
qed

lemma nearest_minus: "nearest (- x) = - nearest x"
  by (simp add: nearest_def round_half_even_minus)

lemma nearest_zero [simp]: "nearest 0 = 0"
  by (simp add: nearest_def round_half_even_small)

lemma binade_ge: "- 1022 \<le> binade x"
  by (simp add: binade_def)

lemma two_powr_52: "2 powr real_of_int (k - 52) * 2 ^ 52 = 2 powr real_of_int k"
proof -
  have "2 powr (real_of_int k - 52) * 2 powr 52 = 2 powr (real_of_int k - 52 + 52)"
    by (rule powr_add [symmetric])
  then show ?thesis by simp
qed

lemma two_powr_53: "2 powr real_of_int (k - 52) * 2 ^ 53 = 2 powr real_of_int (k + 1)"
proof -
  have "2 powr (real_of_int k - 52) * 2 powr 53 = 2 powr (real_of_int k - 52 + 53)"
    by (rule powr_add [symmetric])
  then show ?thesis by (simp add: add.commute)
qed

text \<open>The binade of a positive number.\<close>

lemma binade_bounds:
  assumes "0 < x"
  shows "x < 2 powr real_of_int (binade x + 1)"
    and "2 powr (- 1022) \<le> x \<Longrightarrow> 2 powr real_of_int (binade x) \<le> x"
proof -
  let ?k = "\<lfloor>log 2 x\<rfloor>"
  have k: "2 powr real_of_int ?k \<le> x \<and> x < 2 powr real_of_int (?k + 1)"
    using floor_log_eq_powr_iff [of x 2 ?k] assms by simp
  have "?k \<le> binade x"
    using assms by (simp add: binade_def)
  then have "2 powr real_of_int (?k + 1) \<le> 2 powr real_of_int (binade x + 1)"
    by simp
  with k show "x < 2 powr real_of_int (binade x + 1)"
    by linarith
  show "2 powr real_of_int (binade x) \<le> x" if big: "2 powr (- 1022) \<le> x"
  proof -
    have "- 1022 \<le> log 2 x"
      using big assms le_log_iff [of 2 x "- 1022"] by simp
    then have "- 1022 \<le> ?k"
      by (simp add: le_floor_iff)
    then have "binade x = ?k"
      using assms by (simp add: binade_def)
    with k show ?thesis by simp
  qed
qed

lemma binade_eqI:
  assumes "- 1022 \<le> k" and "2 powr real_of_int k \<le> x" and "x < 2 powr real_of_int (k + 1)"
  shows "binade x = k"
proof -
  have pos: "0 < x"
    using assms(2) powr_gt_zero [of 2 "real_of_int k"] by linarith
  then have "\<lfloor>log 2 x\<rfloor> = k"
    using floor_log_eq_powr_iff [of x 2 k] assms by simp
  with pos assms(1) show ?thesis
    by (simp add: binade_def)
qed

lemma binade_small:
  assumes "\<bar>x\<bar> < 2 powr (- 1022)"
  shows "binade x = - 1022"
proof (cases "x = 0")
  case True
  then show ?thesis by (simp add: binade_def)
next
  case False
  then have pos: "0 < \<bar>x\<bar>" by simp
  have "log 2 \<bar>x\<bar> < - 1022"
    using assms pos log_less [of 2 "\<bar>x\<bar>" "2 powr (- 1022)"] by simp
  then have "\<lfloor>log 2 \<bar>x\<bar>\<rfloor> < - 1022"
    by (simp add: floor_less_iff)
  then show ?thesis
    using False by (simp add: binade_def le_max_iff_disj)
qed

lemma binade_mono:
  assumes "0 < x" and "x \<le> y"
  shows "binade x \<le> binade y"
proof -
  have "log 2 x \<le> log 2 y"
    using assms by simp
  then have "\<lfloor>log 2 x\<rfloor> \<le> \<lfloor>log 2 y\<rfloor>"
    by (rule floor_mono)
  with assms show ?thesis
    by (simp add: binade_def)
qed

lemma nearest_powr:
  assumes "- 1022 \<le> k"
  shows "nearest (2 powr real_of_int k) = 2 powr real_of_int k"
proof -
  let ?x = "2 powr real_of_int k"
  have b: "binade ?x = k"
    using assms by (intro binade_eqI) simp_all
  have "?x / ulp ?x = of_int (2 ^ 52)"
    using two_powr_52 [of k] by (simp add: ulp_def b field_simps)
  then have "round_half_even (?x / ulp ?x) = 2 ^ 52"
    by (simp only: round_half_even_int)
  then show ?thesis
    using two_powr_52 [of k] by (simp add: nearest_def ulp_def b mult.commute)
qed

lemma nearest_nonneg:
  assumes "0 \<le> x"
  shows "0 \<le> nearest x"
proof -
  have "0 \<le> x / ulp x"
    using assms by (intro divide_nonneg_pos) simp_all
  then have "round_half_even 0 \<le> round_half_even (x / ulp x)"
    by (rule round_half_even_mono)
  then have "0 \<le> round_half_even (x / ulp x)"
    using round_half_even_int [of 0] by simp
  then show ?thesis
    by (simp add: nearest_def)
qed

text \<open>A positive number is rounded within its binade.\<close>

lemma nearest_within:
  assumes "0 < x"
  shows "nearest x \<le> 2 powr real_of_int (binade x + 1)"
    and "2 powr (- 1022) \<le> x \<Longrightarrow> 2 powr real_of_int (binade x) \<le> nearest x"
proof -
  let ?u = "2 powr real_of_int (binade x - 52)"
  have u: "ulp x = ?u" by (simp add: ulp_def)
  have up: "x / ?u \<le> of_int (2 ^ 53)"
  proof -
    have "x \<le> 2 powr real_of_int (binade x + 1)"
      using binade_bounds(1) [OF assms] by simp
    also have "\<dots> = ?u * 2 ^ 53"
      by (rule two_powr_53 [symmetric])
    finally show ?thesis
      by (simp add: field_simps)
  qed
  have "round_half_even (x / ?u) \<le> round_half_even (of_int (2 ^ 53))"
    using up by (rule round_half_even_mono)
  then have "round_half_even (x / ?u) \<le> 2 ^ 53"
    by (simp only: round_half_even_int)
  then have "real_of_int (round_half_even (x / ?u)) \<le> 2 ^ 53"
    by (metis of_int_le_iff of_int_numeral of_int_power)
  then have "nearest x \<le> 2 ^ 53 * ?u"
    by (simp add: nearest_def u)
  also have "2 ^ 53 * ?u = 2 powr real_of_int (binade x + 1)"
    using two_powr_53 [of "binade x"] by (simp only: mult.commute)
  finally show "nearest x \<le> 2 powr real_of_int (binade x + 1)" .
  show "2 powr real_of_int (binade x) \<le> nearest x" if big: "2 powr (- 1022) \<le> x"
  proof -
    have lo: "of_int (2 ^ 52) \<le> x / ?u"
    proof -
      have "?u * 2 ^ 52 = 2 powr real_of_int (binade x)"
        by (rule two_powr_52)
      also have "\<dots> \<le> x"
        using binade_bounds(2) [OF assms big] .
      finally show ?thesis
        by (simp add: field_simps)
    qed
    have "round_half_even (of_int (2 ^ 52)) \<le> round_half_even (x / ?u)"
      using lo by (rule round_half_even_mono)
    then have "2 ^ 52 \<le> round_half_even (x / ?u)"
      by (simp only: round_half_even_int)
    then have "2 ^ 52 \<le> real_of_int (round_half_even (x / ?u))"
      by (metis of_int_le_iff of_int_numeral of_int_power)
    then have "2 ^ 52 * ?u \<le> nearest x"
      by (simp add: nearest_def u)
    moreover have "2 ^ 52 * ?u = 2 powr real_of_int (binade x)"
      using two_powr_52 [of "binade x"] by (simp only: mult.commute)
    ultimately show ?thesis by simp
  qed
qed

lemma nearest_mono_pos:
  assumes "0 < x" and "x \<le> y"
  shows "nearest x \<le> nearest y"
proof (cases "binade x = binade y")
  case True
  then have u: "ulp x = ulp y" by (simp add: ulp_def)
  have "x / ulp y \<le> y / ulp y"
    using assms(2) by (intro divide_right_mono) simp_all
  then have "round_half_even (x / ulp y) \<le> round_half_even (y / ulp y)"
    by (rule round_half_even_mono)
  then show ?thesis
    by (simp add: nearest_def u)
next
  case False
  with binade_mono [OF assms] have lt: "binade x + 1 \<le> binade y"
    by simp
  have y: "0 < y" using assms by simp
  have "- 1022 < binade y"
    using lt binade_ge [of x] by simp
  then have big: "2 powr (- 1022) \<le> y"
    using binade_small [of y] y by (cases "y < 2 powr (- 1022)") auto
  have "nearest x \<le> 2 powr real_of_int (binade x + 1)"
    using nearest_within(1) [OF assms(1)] .
  also have "\<dots> \<le> 2 powr real_of_int (binade y)"
    using lt by simp
  also have "\<dots> \<le> nearest y"
    using nearest_within(2) [OF y big] .
  finally show ?thesis .
qed

lemma nearest_mono:
  assumes "x \<le> y"
  shows "nearest x \<le> nearest y"
proof -
  consider "0 < x" | "x \<le> 0" "0 \<le> y" | "y < 0" by linarith
  then show ?thesis
  proof cases
    case 1
    then show ?thesis using assms by (rule nearest_mono_pos)
  next
    case 2
    have "nearest x \<le> 0"
      using nearest_nonneg [of "- x"] 2(1) by (simp add: nearest_minus)
    moreover have "0 \<le> nearest y"
      using 2(2) by (rule nearest_nonneg)
    ultimately show ?thesis by simp
  next
    case 3
    then have "0 < - y" "- y \<le> - x" using assms by simp_all
    then have "nearest (- y) \<le> nearest (- x)"
      by (rule nearest_mono_pos)
    then show ?thesis
      by (simp add: nearest_minus)
  qed
qed

lemma nearest_bound:
  assumes "- 1022 \<le> k" and "\<bar>x\<bar> \<le> 2 powr real_of_int k"
  shows "\<bar>nearest x\<bar> \<le> 2 powr real_of_int k"
proof -
  from assms(2) have "x \<le> 2 powr real_of_int k" "- (2 powr real_of_int k) \<le> x"
    by linarith+
  then have "nearest x \<le> nearest (2 powr real_of_int k)"
    and "nearest (- (2 powr real_of_int k)) \<le> nearest x"
    by (simp_all add: nearest_mono)
  then show ?thesis
    by (simp add: nearest_minus nearest_powr [OF assms(1)] abs_le_iff)
qed

text \<open>Integers of at most 53 bits are floats.\<close>

lemma nearest_of_int:
  assumes "\<bar>n\<bar> < 2 ^ 53"
  shows "nearest (of_int n) = of_int n"
proof (cases "n = 0")
  case True
  then show ?thesis by simp
next
  case False
  let ?x = "real_of_int n"
  have "1 \<le> \<bar>n\<bar>"
    using False by simp
  then have "real_of_int 1 \<le> real_of_int \<bar>n\<bar>"
    by (simp only: of_int_le_iff)
  then have ge1: "1 \<le> \<bar>?x\<bar>"
    by simp
  have "0 \<le> log 2 \<bar>?x\<bar>"
    using ge1 False by simp
  then have "0 \<le> \<lfloor>log 2 \<bar>?x\<bar>\<rfloor>"
    by (simp only: zero_le_floor)
  then have b0: "0 \<le> binade ?x"
    using False by (simp add: binade_def le_max_iff_disj)
  have "real_of_int \<bar>n\<bar> < real_of_int (2 ^ 53)"
    using assms by (simp only: of_int_less_iff)
  then have "\<bar>?x\<bar> < 2 ^ 53"
    by simp
  then have "log 2 \<bar>?x\<bar> < 53"
    using ge1 by (simp add: log_less_iff)
  then have "\<lfloor>log 2 \<bar>?x\<bar>\<rfloor> < 53"
    by (simp add: floor_less_iff)
  then have b1: "binade ?x \<le> 52"
    by (simp add: binade_def)
  define j where "j = nat (52 - binade ?x)"
  have j: "real_of_int (binade ?x) - 52 = - real j"
    using b1 by (simp add: j_def)
  have u: "ulp ?x = 1 / 2 ^ j"
    by (simp add: ulp_def j powr_minus powr_realpow inverse_eq_divide)
  have "?x / ulp ?x = of_int (n * 2 ^ j)"
    by (simp add: u)
  then have "round_half_even (?x / ulp ?x) = n * 2 ^ j"
    by (simp only: round_half_even_int)
  then show ?thesis
    by (simp add: nearest_def u)
qed

lemma nearest_numeral [simp]:
  "numeral w < (2::int) ^ 53 \<Longrightarrow> nearest (numeral w) = numeral w"
  using nearest_of_int [of "numeral w"] by simp

lemma nearest_one [simp]: "nearest 1 = 1"
  using nearest_of_int [of 1] by simp

lemma nearest_neg_numeral [simp]:
  "numeral w < (2::int) ^ 53 \<Longrightarrow> nearest (- numeral w) = - numeral w"
  by (simp add: nearest_minus)

text \<open>Underflow and overflow.\<close>

lemma nearest_underflow:
  assumes "\<bar>x\<bar> < 2 powr (- 1075)"
  shows "nearest x = 0"
proof -
  have "(2::real) powr (- 1075) \<le> 2 powr (- 1022)"
    by simp
  with assms have b: "binade x = - 1022"
    by (intro binade_small) linarith
  have u: "ulp x = 2 powr (- 1074)"
    by (simp add: ulp_def b)
  have half: "(2::real) powr (- 1075) = 2 powr (- 1074) / 2"
  proof -
    have "(2::real) powr (- 1074) = 2 powr (- 1075 + 1)" by simp
    also have "\<dots> = 2 powr (- 1075) * 2"
      by (simp only: powr_add) simp
    finally show ?thesis by simp
  qed
  have "\<bar>x\<bar> < ulp x / 2"
    using assms unfolding u half .
  then have "\<bar>x\<bar> / ulp x < 1 / 2"
    by (simp add: field_simps)
  then have "\<bar>x / ulp x\<bar> < 1 / 2"
    by simp
  then have "round_half_even (x / ulp x) = 0"
    by (rule round_half_even_small)
  then show ?thesis
    by (simp add: nearest_def)
qed

lemma rnd_bounded:
  assumes "\<bar>x\<bar> \<le> 2 ^ 1023"
  shows "rnd x = Finite (nearest x)"
proof -
  have "(2::real) ^ 1023 = 2 powr real_of_int 1023"
    by (simp add: powr_realpow [symmetric])
  with assms have "\<bar>nearest x\<bar> \<le> 2 ^ 1023"
    using nearest_bound [of 1023 x] by simp
  moreover have "(2::real) ^ 1023 < 2 ^ 1024"
    by (rule power_strict_increasing) simp_all
  ultimately show ?thesis
    by (simp add: rnd_def)
qed

lemma rnd_overflow:
  assumes "2 ^ 1024 \<le> x"
  shows "rnd x = NonFinite PosInfinity"
proof -
  have p: "(2::real) ^ 1024 = 2 powr real_of_int 1024"
    by (simp add: powr_realpow [symmetric])
  have "nearest (2 powr real_of_int 1024) \<le> nearest x"
    using assms unfolding p by (rule nearest_mono)
  then have "2 ^ 1024 \<le> nearest x"
    using nearest_powr [of 1024] p by simp
  moreover have "0 < x"
    using assms by (meson less_le_trans zero_less_numeral zero_less_power)
  ultimately show ?thesis
    by (simp add: rnd_def)
qed

lemma rnd_zero [simp]: "rnd 0 = Finite 0"
  by (simp add: rnd_def)

section \<open>Properties of the loaders\<close>

text \<open>Fragments are delimited by braces.\<close>

definition braced :: "string \<Rightarrow> bool" where
  "braced f = (startswith f (CHR ''{'') \<and> endswith f (CHR ''}''))"

lemma braced_iff: "braced f \<longleftrightarrow> f \<noteq> [] \<and> hd f = CHR ''{'' \<and> last f = CHR ''}''"
  by (cases f) (auto simp: braced_def startswith_def endswith_def)

lemma lazy_close_split:
  "lazy_close s = Some (m, r) \<Longrightarrow> s = m @ r \<and> (\<exists>b. m = b @ ''}'')"
proof (induction s arbitrary: m r)
  case Nil
  then show ?case by simp
next
  case (Cons c cs)
  show ?case
  proof (cases "c = CHR ''}'' \<and> lookahead cs")
    case True
    with Cons.prems show ?thesis by auto
  next
    case False
    with Cons.prems obtain m' where m': "lazy_close cs = Some (m', r)" "m = c # m'"
      by (auto simp: push_char_def)
    from Cons.IH [OF m'(1)] m'(2) show ?thesis by auto
  qed
qed

lemma findall_lazy_braced: "f \<in> set (findall_lazy s) \<Longrightarrow> braced f"
proof (induction s rule: findall_lazy.induct)
  case 1
  then show ?case by simp
next
  case (2 c cs)
  then show ?case
    by (auto simp: braced_iff split: if_splits option.splits dest!: lazy_close_split)
qed

lemma findall_flat_braced: "f \<in> set (findall_flat s) \<Longrightarrow> braced f"
proof (induction s rule: findall_flat.induct)
  case 1
  then show ?case by simp
next
  case (2 c cs)
  then show ?case
    by (auto simp: braced_iff split: if_splits list.splits)
qed

lemma not_space_braces: "\<not> py_isspace (CHR ''{'')" "\<not> py_isspace (CHR ''}'')"
  by (simp_all add: py_isspace_def)

lemma strip_braced: "braced f \<Longrightarrow> strip f = f"
proof -
  assume b: "braced f"
  then obtain r where f: "f = CHR ''{'' # r"
    by (cases f) (auto simp: braced_def startswith_def)
  from b obtain q where q: "rev f = CHR ''}'' # q"
    by (cases f rule: rev_cases) (auto simp: braced_iff)
  have "dropWhile py_isspace f = f"
    using f not_space_braces by simp
  moreover have "dropWhile py_isspace (rev f) = rev f"
    using q not_space_braces by simp
  ultimately show ?thesis
    by (simp add: strip_def)
qed

text \<open>On fragments delimited by braces the loop decodes each fragment as it is.\<close>

lemma decode_objects_braced:
  "\<forall>f \<in> set fs. braced f \<Longrightarrow>
   decode_objects fs st =
     (fst st @ List.map_filter json_loads fs,
      snd st @ map (\<lambda>f. Skipping (take 100 f)) (filter (\<lambda>f. json_loads f = None) fs))"
proof (induction fs arbitrary: st)
  case Nil
  then show ?case by (simp add: List.map_filter_simps)
next
  case (Cons f fs)
  then have b: "braced f" and rest: "\<forall>f \<in> set fs. braced f" by simp_all
  from b have s: "strip f = f" by (rule strip_braced)
  from b have se: "startswith f (CHR ''{'')" "endswith f (CHR ''}'')"
    by (simp_all add: braced_def)
  show ?case
  proof (cases "json_loads f")
    case None
    with s se Cons.IH [OF rest] show ?thesis
      by (simp add: List.map_filter_simps)
  next
    case (Some v)
    with s se Cons.IH [OF rest] show ?thesis
      by (simp add: List.map_filter_simps)
  qed
qed

lemma filter_err_filter:
  "filter_err p xs = Inr ys \<Longrightarrow> ys = filter (\<lambda>x. p x = Inr True) xs"
proof (induction xs arbitrary: ys)
  case Nil
  then show ?case by simp
next
  case (Cons x xs)
  then show ?case by (auto simp: ebind_Inr_iff)
qed

lemma filter_err_subseq: "filter_err p xs = Inr ys \<Longrightarrow> subseq ys xs"
  by (auto dest: filter_err_filter)

inductive occurs_in_order :: "string list \<Rightarrow> string \<Rightarrow> bool" where
  no_fragment: "occurs_in_order [] s"
| next_fragment: "occurs_in_order fs rest \<Longrightarrow> occurs_in_order (f # fs) (pre @ f @ rest)"

lemma occurs_in_order_prepend: "occurs_in_order fs s \<Longrightarrow> occurs_in_order fs (a @ s)"
proof (induction rule: occurs_in_order.induct)
  case (no_fragment s)
  show ?case by (rule occurs_in_order.no_fragment)
next
  case (next_fragment fs rest f pre)
  from occurs_in_order.next_fragment [OF next_fragment.hyps, of f "a @ pre"]
  show ?case by simp
qed

lemma occurs_in_order_append: "occurs_in_order fs s \<Longrightarrow> occurs_in_order fs (s @ b)"
proof (induction rule: occurs_in_order.induct)
  case (no_fragment s)
  show ?case by (rule occurs_in_order.no_fragment)
next
  case (next_fragment fs rest f pre)
  from occurs_in_order.next_fragment [OF next_fragment.IH, of f pre]
  show ?case by simp
qed

lemma findall_lazy_in_order: "occurs_in_order (findall_lazy s) s"
proof (induction s rule: findall_lazy.induct)
  case 1
  show ?case by (simp add: occurs_in_order.no_fragment)
next
  case (2 c cs)
  show ?case
  proof (cases "c = CHR ''{''")
    case False
    with occurs_in_order_prepend [OF "2.IH"(3) [OF False], of "[c]"] show ?thesis
      by simp
  next
    case True
    show ?thesis
    proof (cases "lazy_close cs")
      case None
      have "findall_lazy (c # cs) = findall_lazy cs"
        by (simp add: True None)
      with occurs_in_order_prepend [OF "2.IH"(1) [OF True None], of "[c]"] show ?thesis
        by simp
    next
      case (Some mr)
      obtain m rest where mr: "mr = (m, rest)" by (cases mr)
      with Some have lc: "lazy_close cs = Some (m, rest)" by simp
      then have cs: "cs = m @ rest" by (auto dest: lazy_close_split)
      from "2.IH"(2) [OF True lc refl] have "occurs_in_order (findall_lazy rest) rest" .
      from occurs_in_order.next_fragment [OF this, of "c # m" "[]"] True lc cs
      show ?thesis by simp
    qed
  qed
qed

lemma findall_flat_in_order: "occurs_in_order (findall_flat s) s"
proof (induction s rule: findall_flat.induct)
  case 1
  show ?case by (simp add: occurs_in_order.no_fragment)
next
  case (2 c cs)
  show ?case
  proof (cases "c = CHR ''{''")
    case False
    with occurs_in_order_prepend [OF "2.IH"(4) [OF False], of "[c]"] show ?thesis
      by simp
  next
    case True
    show ?thesis
    proof (cases "dropWhile not_brace cs")
      case Nil
      have "findall_flat (c # cs) = findall_flat cs"
        by (simp add: True Nil)
      with occurs_in_order_prepend [OF "2.IH"(1) [OF True Nil], of "[c]"] show ?thesis
        by simp
    next
      case (Cons d rest)
      show ?thesis
      proof (cases "d = CHR ''}''")
        case False
        have "findall_flat (c # cs) = findall_flat cs"
          by (simp add: True Cons False)
        with occurs_in_order_prepend [OF "2.IH"(3) [OF True Cons False], of "[c]"]
        show ?thesis by simp
      next
        case d: True
        have cs: "cs = takeWhile not_brace cs @ d # rest"
          using Cons takeWhile_dropWhile_id [of not_brace cs] by simp
        from "2.IH"(2) [OF True Cons d] have "occurs_in_order (findall_flat rest) rest" .
        from occurs_in_order.next_fragment [OF this, of "c # takeWhile not_brace cs @ [d]" "[]"]
        have "occurs_in_order ((c # takeWhile not_brace cs @ [d]) # findall_flat rest)
                (c # takeWhile not_brace cs @ d # rest)"
          by simp
        moreover have "findall_flat (c # cs) =
            (c # takeWhile not_brace cs @ [d]) # findall_flat rest"
          by (simp add: True Cons d)
        ultimately show ?thesis using cs by simp
      qed
    qed
  qed
qed

lemma strip_infix: "\<exists>a b. s = a @ strip s @ b"
proof -
  let ?t = "dropWhile py_isspace s"
  have 1: "s = takeWhile py_isspace s @ ?t" by simp
  have "rev ?t = takeWhile py_isspace (rev ?t) @ dropWhile py_isspace (rev ?t)" by simp
  then have "?t = rev (dropWhile py_isspace (rev ?t)) @ rev (takeWhile py_isspace (rev ?t))"
    by (metis rev_append rev_rev_ident)
  with 1 show ?thesis unfolding strip_def by metis
qed

lemma rstrip_commas_prefix: "\<exists>b. s = rstrip_commas s @ b"
proof -
  let ?P = "\<lambda>c. c = CHR '',''"
  have "rev s = takeWhile ?P (rev s) @ dropWhile ?P (rev s)" by simp
  then have "s = rev (dropWhile ?P (rev s)) @ rev (takeWhile ?P (rev s))"
    by (metis rev_append rev_rev_ident)
  then show ?thesis unfolding rstrip_commas_def by metis
qed

lemma content_infix: "\<exists>a b. s = a @ rstrip_commas (strip s) @ b"
proof -
  obtain a b where 1: "s = a @ strip s @ b" using strip_infix by blast
  obtain c where 2: "strip s = rstrip_commas (strip s) @ c" using rstrip_commas_prefix by blast
  have "s = a @ rstrip_commas (strip s) @ (c @ b)"
    using 1 2 by (metis append.assoc)
  then show ?thesis by blast
qed

lemma occurs_in_order_content:
  assumes "occurs_in_order fs (rstrip_commas (strip s))"
  shows "occurs_in_order fs s"
proof -
  obtain a b where s: "s = a @ rstrip_commas (strip s) @ b" using content_infix by blast
  from assms have "occurs_in_order fs (a @ rstrip_commas (strip s) @ b)"
    by (rule occurs_in_order_prepend [OF occurs_in_order_append])
  with s show ?thesis by simp
qed

text \<open>What the two fragment loaders compute, in closed form.\<close>

definition skipped :: "string list \<Rightarrow> message list" where
  "skipped fs = map (\<lambda>f. Skipping (take 100 f)) (filter (\<lambda>f. json_loads f = None) fs)"

lemma load_hike_data_eq:
  "load_hike_data file_text =
     (skipped (findall_lazy (rstrip_commas (strip file_text))),
      filter_err keep_map
        (List.map_filter json_loads (findall_lazy (rstrip_commas (strip file_text)))))"
proof -
  let ?fs = "findall_lazy (rstrip_commas (strip file_text))"
  have "\<forall>f \<in> set ?fs. braced f"
    by (auto dest: findall_lazy_braced)
  from decode_objects_braced [OF this, of "([], [])"] show ?thesis
    by (simp add: load_hike_data_def Let_def skipped_def)
qed

lemma load_data_map2_eq:
  "load_data_map2 file_text =
     (skipped (findall_flat (rstrip_commas (strip file_text))),
      filter_err keep_map2
        (List.map_filter json_loads (findall_flat (rstrip_commas (strip file_text)))))"
proof -
  let ?fs = "findall_flat (rstrip_commas (strip file_text))"
  have "\<forall>f \<in> set ?fs. braced f"
    by (auto dest: findall_flat_braced)
  from decode_objects_braced [OF this, of "([], [])"] show ?thesis
    by (simp add: load_data_map2_def Let_def skipped_def)
qed

text \<open>The decoder returns a list for a text that starts with a bracket.\<close>

definition bottom_array :: "pstate \<times> frame list \<Rightarrow> bool" where
  "bottom_array c =
     (case fst c of
        Done v \<Rightarrow> (case v of JArr _ \<Rightarrow> True | _ \<Rightarrow> False)
      | _ \<Rightarrow> snd c \<noteq> [] \<and> (case last (snd c) of ArrayFrame _ \<Rightarrow> True | _ \<Rightarrow> False))"

lemma deliver_bottom:
  "deliver v st = Some c' \<Longrightarrow> st \<noteq> [] \<Longrightarrow> (case last st of ArrayFrame _ \<Rightarrow> True | _ \<Rightarrow> False)
   \<Longrightarrow> bottom_array c'"
  by (auto simp: deliver_def bottom_array_def split: list.splits frame.splits if_splits)

lemma close_array_bottom:
  "close_array st = Some c' \<Longrightarrow> st \<noteq> [] \<Longrightarrow> (case last st of ArrayFrame _ \<Rightarrow> True | _ \<Rightarrow> False)
   \<Longrightarrow> bottom_array c'"
  by (auto simp: close_array_def deliver_def bottom_array_def
      split: list.splits frame.splits if_splits)

lemma close_object_bottom:
  "close_object st = Some c' \<Longrightarrow> st \<noteq> [] \<Longrightarrow> (case last st of ArrayFrame _ \<Rightarrow> True | _ \<Rightarrow> False)
   \<Longrightarrow> bottom_array c'"
  by (auto simp: close_object_def deliver_def bottom_array_def
      split: list.splits frame.splits if_splits)

lemma open_value_bottom:
  "open_value t st = Some c' \<Longrightarrow> st \<noteq> [] \<Longrightarrow> (case last st of ArrayFrame _ \<Rightarrow> True | _ \<Rightarrow> False)
   \<Longrightarrow> bottom_array c'"
  by (cases t) (auto simp: open_value_def bottom_array_def dest: deliver_bottom)

lemma take_key_bottom:
  "take_key t st = Some c' \<Longrightarrow> st \<noteq> [] \<Longrightarrow> (case last st of ArrayFrame _ \<Rightarrow> True | _ \<Rightarrow> False)
   \<Longrightarrow> bottom_array c'"
  by (auto simp: take_key_def bottom_array_def
      split: token.splits json.splits list.splits frame.splits if_splits)

lemma pda_step_bottom:
  assumes "pda_step c t = Some c'" and "bottom_array c"
  shows "bottom_array c'"
proof (cases "fst c")
  case (Done v)
  with assms show ?thesis by (simp add: pda_step_def)
next
  case WantValue
  with assms show ?thesis
    by (auto simp: pda_step_def bottom_array_def dest: open_value_bottom)
next
  case WantValueOrClose
  with assms show ?thesis
    by (auto simp: pda_step_def bottom_array_def split: if_splits
        dest: open_value_bottom close_array_bottom)
next
  case WantKeyOrClose
  with assms show ?thesis
    by (auto simp: pda_step_def bottom_array_def split: if_splits
        dest: take_key_bottom close_object_bottom)
next
  case WantKey
  with assms show ?thesis
    by (auto simp: pda_step_def bottom_array_def dest: take_key_bottom)
next
  case WantColon
  with assms show ?thesis
    by (auto simp: pda_step_def bottom_array_def split: if_splits)
next
  case WantCommaOrClose
  with assms(2) have st: "snd c \<noteq> []"
    and la: "case last (snd c) of ArrayFrame _ \<Rightarrow> True | _ \<Rightarrow> False"
    by (simp_all add: bottom_array_def)
  from assms(1) WantCommaOrClose
  consider "c' = (WantValue, snd c)" | "c' = (WantKey, snd c)"
    | "close_array (snd c) = Some c'" | "close_object (snd c) = Some c'"
    by (auto simp: pda_step_def split: if_splits list.splits frame.splits)
  then show ?thesis
  proof cases
    case 1
    with st la show ?thesis by (simp add: bottom_array_def)
  next
    case 2
    with st la show ?thesis by (simp add: bottom_array_def)
  next
    case 3
    from close_array_bottom [OF 3 st la] show ?thesis .
  next
    case 4
    from close_object_bottom [OF 4 st la] show ?thesis .
  qed
qed


lemma pda_run_bottom:
  "pda_run c ts = Some v \<Longrightarrow> bottom_array c \<Longrightarrow> \<exists>xs. v = JArr xs"
proof (induction ts arbitrary: c)
  case Nil
  then show ?case
    by (auto simp: bottom_array_def split: pstate.splits json.splits)
next
  case (Cons t ts)
  then show ?case
    by (auto split: option.splits dest: pda_step_bottom)
qed

lemma json_loads_bracket:
  assumes "json_loads (CHR ''['' # s) = Some v"
  shows "\<exists>xs. v = JArr xs"
proof -
  from assms obtain ts where ts: "lex s = Some ts"
    and run: "pda_run (WantValue, []) (LBracket # ts) = Some v"
    by (auto simp: json_loads_def json_ws_def split: option.splits)
  from run have "pda_run (WantValueOrClose, [ArrayFrame []]) ts = Some v"
    by (simp add: pda_step_def open_value_def)
  moreover have "bottom_array (WantValueOrClose, [ArrayFrame []])"
    by (simp add: bottom_array_def)
  ultimately show ?thesis by (rule pda_run_bottom)
qed


lemma load_data_map3_cases:
  "(json_loads (wrap_text file_text) = None \<and> load_data_map3 file_text = ([JSON_error], Inr [])) \<or>
   (\<exists>data. json_loads (wrap_text file_text) = Some (JArr data) \<and>
           load_data_map3 file_text = ([], Inr (filter keep_map3 data)))"
proof (cases "json_loads (wrap_text file_text)")
  case None
  then show ?thesis by (simp add: load_data_map3_def)
next
  case (Some v)
  have "wrap_text file_text = CHR ''['' # tl (wrap_text file_text)"
    by (simp add: wrap_text_def Let_def)
  with Some have "json_loads (CHR ''['' # tl (wrap_text file_text)) = Some v"
    by simp
  then obtain data where "v = JArr data"
    by (blast dest: json_loads_bracket)
  with Some show ?thesis
    by (simp add: load_data_map3_def py_iter_def ebind_def)
qed

text \<open>
  Claim C8. The records a loader returns are a subsequence of the decoded candidates:
  nothing is reordered and nothing is duplicated. In \<^verbatim>\<open>map.py\<close> and \<^verbatim>\<open>map2.py\<close>
  the candidates are the fragments that decode, in the order of the scan, and the
  fragments lie in the file text one after the other without overlap; in
  \<^verbatim>\<open>map3.py\<close> they are the elements of the decoded list.
\<close>

theorem parsers_preserve_order:
  "(load_hike_data file_text = (out, Inr recs) \<longrightarrow>
      occurs_in_order (findall_lazy (rstrip_commas (strip file_text))) file_text \<and>
      subseq recs (List.map_filter json_loads (findall_lazy (rstrip_commas (strip file_text))))) \<and>
   (load_data_map2 file_text = (out, Inr recs) \<longrightarrow>
      occurs_in_order (findall_flat (rstrip_commas (strip file_text))) file_text \<and>
      subseq recs (List.map_filter json_loads (findall_flat (rstrip_commas (strip file_text))))) \<and>
   (load_data_map3 file_text = (out, Inr recs) \<longrightarrow>
      recs = [] \<or>
      (\<exists>data. json_loads (wrap_text file_text) = Some (JArr data) \<and> subseq recs data))"
proof (intro conjI impI)
  show "occurs_in_order (findall_lazy (rstrip_commas (strip file_text))) file_text"
    by (rule occurs_in_order_content) (rule findall_lazy_in_order)
  show "occurs_in_order (findall_flat (rstrip_commas (strip file_text))) file_text"
    by (rule occurs_in_order_content) (rule findall_flat_in_order)
next
  assume "load_hike_data file_text = (out, Inr recs)"
  then have "filter_err keep_map
      (List.map_filter json_loads (findall_lazy (rstrip_commas (strip file_text)))) = Inr recs"
    by (simp add: load_hike_data_eq)
  then show "subseq recs
      (List.map_filter json_loads (findall_lazy (rstrip_commas (strip file_text))))"
    by (rule filter_err_subseq)
next
  assume "load_data_map2 file_text = (out, Inr recs)"
  then have "filter_err keep_map2
      (List.map_filter json_loads (findall_flat (rstrip_commas (strip file_text)))) = Inr recs"
    by (simp add: load_data_map2_eq)
  then show "subseq recs
      (List.map_filter json_loads (findall_flat (rstrip_commas (strip file_text))))"
    by (rule filter_err_subseq)
next
  assume "load_data_map3 file_text = (out, Inr recs)"
  with load_data_map3_cases [of file_text]
  show "recs = [] \<or>
      (\<exists>data. json_loads (wrap_text file_text) = Some (JArr data) \<and> subseq recs data)"
    by auto
qed

section \<open>Evaluation on sample inputs\<close>

lemmas eval_lex = json_ws_def hex_val_def unescape_def hex4_def push_char_def push_code_def
  low_surrogate_def digits_val_def exponent_def fraction_def unsigned_number_def lex_number_def
  literal_def atom_def is_digit_def digit_val_def float_json_def
lemmas eval_pda = deliver_def open_value_def take_key_def close_array_def close_object_def
  pda_step_def
lemmas eval_scan = strip_def py_isspace_def rstrip_commas_def lookahead_def not_brace_def
  startswith_def endswith_def wrap_text_def
lemmas eval_load = load_hike_data_def load_data_map2_def load_data_map3_def keep_map_def
  keep_map2_def keep_map3_def ne_zero_def subscript_def py_get_def py_iter_def ebind_def codes_def

text \<open>A no-fix record followed by a record on the equator.\<close>

definition two_fixes :: string where
  \<open>two_fixes = ''{"lat": 0, "lng": 0},{"lat": 0.0, "lng": 5}''\<close>

lemma load_hike_data_two_fixes:
  "load_hike_data two_fixes = ([], Inr [JObj [(''lat'', JFloat 0), (''lng'', JInt 5)]])"
  by (simp add: two_fixes_def eval_load eval_scan json_loads_def eval_lex eval_pda)

lemma load_data_map2_two_fixes:
  "load_data_map2 two_fixes = ([], Inr [JObj [(''lat'', JFloat 0), (''lng'', JInt 5)]])"
  by (simp add: two_fixes_def eval_load eval_scan json_loads_def eval_lex eval_pda)

lemma load_data_map3_two_fixes:
  "load_data_map3 two_fixes = ([], Inr [JObj [(''lat'', JFloat 0), (''lng'', JInt 5)]])"
  by (simp add: two_fixes_def eval_load eval_scan json_loads_def eval_lex eval_pda)

section \<open>The coordinate filter\<close>

text \<open>A record with both keys, and the no-fix record: both present and both equal to 0.\<close>

definition has_coordinates :: "json \<Rightarrow> bool" where
  "has_coordinates p =
     (case p of
        JDict d \<Rightarrow> map_of d (codes ''lat'') \<noteq> None \<and> map_of d (codes ''lng'') \<noteq> None
      | _ \<Rightarrow> False)"

definition sentinel :: "json \<Rightarrow> bool" where
  "sentinel p =
     (case p of
        JDict d \<Rightarrow>
          (case map_of d (codes ''lat'') of
             None \<Rightarrow> False
           | Some lat \<Rightarrow>
               (case map_of d (codes ''lng'') of
                  None \<Rightarrow> False
                | Some lng \<Rightarrow> \<not> ne_zero lat \<and> \<not> ne_zero lng))
      | _ \<Rightarrow> False)"

lemma keep_map3_iff: "keep_map3 p \<longleftrightarrow> has_coordinates p \<and> \<not> sentinel p"
  by (auto simp: keep_map3_def has_coordinates_def sentinel_def split: json.splits option.splits)

lemma keep_map_not_sentinel: "keep_map p = Inr True \<Longrightarrow> \<not> sentinel p"
  by (auto simp: keep_map_def sentinel_def subscript_def ebind_def
      split: json.splits option.splits if_splits)

lemma keep_map2_not_sentinel: "keep_map2 p = Inr True \<Longrightarrow> \<not> sentinel p"
  by (auto simp: keep_map2_def sentinel_def py_get_def ebind_def ne_zero_def
      split: json.splits option.splits if_splits)

lemma filter_err_holds:
  assumes "filter_err p xs = Inr ys" and "x \<in> set ys"
  shows "p x = Inr True"
  using filter_err_filter [OF assms(1)] assms(2) by simp

text \<open>
  Claim C4 (as amended). The filter of \<^verbatim>\<open>map3.py\<close> keeps a candidate exactly when it is
  a key-value object that has a \<open>lat\<close> and a \<open>lng\<close> key whose values are not both equal
  to 0, whatever their types. So no record of its output lacks \<open>lat\<close> or \<open>lng\<close> or has
  both equal to 0; and no record returned by \<^verbatim>\<open>map.py\<close> or \<^verbatim>\<open>map2.py\<close> has both
  equal to 0.
\<close>

theorem coordinate_filter:
  "(keep_map3 p \<longleftrightarrow> has_coordinates p \<and> \<not> sentinel p) \<and>
   (load_data_map3 file_text = (out, Inr recs) \<longrightarrow>
      (\<forall>r \<in> set recs. has_coordinates r \<and> \<not> sentinel r)) \<and>
   (load_hike_data file_text = (out, Inr recs) \<longrightarrow> (\<forall>r \<in> set recs. \<not> sentinel r)) \<and>
   (load_data_map2 file_text = (out, Inr recs) \<longrightarrow> (\<forall>r \<in> set recs. \<not> sentinel r))"
proof (intro conjI impI ballI)
  show "keep_map3 p \<longleftrightarrow> has_coordinates p \<and> \<not> sentinel p"
    by (rule keep_map3_iff)
next
  fix r assume "load_data_map3 file_text = (out, Inr recs)" and r: "r \<in> set recs"
  with load_data_map3_cases [of file_text] have "keep_map3 r"
    by auto
  then show "has_coordinates r" and "\<not> sentinel r"
    by (simp_all add: keep_map3_iff)
next
  fix r assume "load_hike_data file_text = (out, Inr recs)" and r: "r \<in> set recs"
  then have "filter_err keep_map
      (List.map_filter json_loads (findall_lazy (rstrip_commas (strip file_text)))) = Inr recs"
    by (simp add: load_hike_data_eq)
  from filter_err_holds [OF this r] show "\<not> sentinel r"
    by (rule keep_map_not_sentinel)
next
  fix r assume "load_data_map2 file_text = (out, Inr recs)" and r: "r \<in> set recs"
  then have "filter_err keep_map2
      (List.map_filter json_loads (findall_flat (rstrip_commas (strip file_text)))) = Inr recs"
    by (simp add: load_data_map2_eq)
  from filter_err_holds [OF this r] show "\<not> sentinel r"
    by (rule keep_map2_not_sentinel)
qed

theorem coordinate_filter_witness:
  "load_data_map3 two_fixes = ([], Inr [JObj [(''lat'', JFloat 0), (''lng'', JInt 5)]]) \<and>
   load_hike_data two_fixes = ([], Inr [JObj [(''lat'', JFloat 0), (''lng'', JInt 5)]]) \<and>
   load_data_map2 two_fixes = ([], Inr [JObj [(''lat'', JFloat 0), (''lng'', JInt 5)]]) \<and>
   keep_map3 (JObj [(''lat'', JFloat 0), (''lng'', JInt 5)]) \<and>
   has_coordinates (JObj [(''lat'', JFloat 0), (''lng'', JInt 5)]) \<and>
   \<not> sentinel (JObj [(''lat'', JFloat 0), (''lng'', JInt 5)])"
proof -
  let ?r = "JObj [(''lat'', JFloat 0), (''lng'', JInt 5)]"
  note c = coordinate_filter [of ?r two_fixes "[]" "[?r]"]
  from c load_data_map3_two_fixes have "has_coordinates ?r \<and> \<not> sentinel ?r" by simp
  moreover from this c have "keep_map3 ?r" by blast
  moreover from c load_hike_data_two_fixes have "\<not> sentinel ?r" by simp
  moreover from c load_data_map2_two_fixes have "\<not> sentinel ?r" by simp
  ultimately show ?thesis
    using load_hike_data_two_fixes load_data_map2_two_fixes load_data_map3_two_fixes by simp
qed

text \<open>
  Claim C4 as stated fails: the values of \<open>lat\<close> and \<open>lng\<close> are never checked to be
  numbers, and a record whose coordinates are strings is kept.
\<close>

theorem filter_keeps_non_numeric:
  \<open>load_data_map3 ''{"lat": "x", "lng": "y"}'' =
     ([], Inr [JObj [(''lat'', JStr ''x''), (''lng'', JStr ''y'')]]) \<and>
   num (JStr ''x'') = Inl TypeError \<and> num (JStr ''y'') = Inl TypeError\<close>
  by (simp add: eval_load eval_scan json_loads_def eval_lex eval_pda num_def)

text \<open>Without a \<open>lat\<close> key, \<^verbatim>\<open>map2.py\<close> keeps the record and \<^verbatim>\<open>map.py\<close> raises.\<close>

lemma load_data_map2_keeps_without_lat:
  \<open>load_data_map2 ''{"altitude": 5}'' = ([], Inr [JObj [(''altitude'', JInt 5)]])\<close>
  by (simp add: eval_load eval_scan json_loads_def eval_lex eval_pda)

lemma load_hike_data_raises_without_lat:
  \<open>load_hike_data ''{"altitude": 5}'' = ([], Inl KeyError)\<close>
  by (simp add: eval_load eval_scan json_loads_def eval_lex eval_pda)

theorem parsers_preserve_order_witness:
  "load_hike_data two_fixes = ([], Inr [JObj [(''lat'', JFloat 0), (''lng'', JInt 5)]]) \<and>
   load_data_map2 two_fixes = ([], Inr [JObj [(''lat'', JFloat 0), (''lng'', JInt 5)]]) \<and>
   load_data_map3 two_fixes = ([], Inr [JObj [(''lat'', JFloat 0), (''lng'', JInt 5)]]) \<and>
   occurs_in_order (findall_lazy (rstrip_commas (strip two_fixes))) two_fixes \<and>
   occurs_in_order (findall_flat (rstrip_commas (strip two_fixes))) two_fixes \<and>
   subseq [JObj [(''lat'', JFloat 0), (''lng'', JInt 5)]]
     (List.map_filter json_loads (findall_lazy (rstrip_commas (strip two_fixes)))) \<and>
   subseq [JObj [(''lat'', JFloat 0), (''lng'', JInt 5)]]
     (List.map_filter json_loads (findall_flat (rstrip_commas (strip two_fixes)))) \<and>
   (\<exists>data. json_loads (wrap_text two_fixes) = Some (JArr data) \<and>
      subseq [JObj [(''lat'', JFloat 0), (''lng'', JInt 5)]] data)"
proof -
  let ?r = "JObj [(''lat'', JFloat 0), (''lng'', JInt 5)]"
  note c = parsers_preserve_order [of two_fixes "[]" "[?r]"]
  from c load_hike_data_two_fixes have
    "occurs_in_order (findall_lazy (rstrip_commas (strip two_fixes))) two_fixes \<and>
     subseq [?r] (List.map_filter json_loads (findall_lazy (rstrip_commas (strip two_fixes))))"
    by blast
  moreover from c load_data_map2_two_fixes have
    "occurs_in_order (findall_flat (rstrip_commas (strip two_fixes))) two_fixes \<and>
     subseq [?r] (List.map_filter json_loads (findall_flat (rstrip_commas (strip two_fixes))))"
    by blast
  moreover from c load_data_map3_two_fixes have
    "\<exists>data. json_loads (wrap_text two_fixes) = Some (JArr data) \<and> subseq [?r] data"
    by blast
  ultimately show ?thesis
    using load_hike_data_two_fixes load_data_map2_two_fixes load_data_map3_two_fixes by blast
qed
section \<open>What the decoder reads\<close>

text \<open>
  An escape above \<open>00FF\<close> and a surrogate pair are decoded; a number below the
  smallest float is read as 0 and one above the largest as an infinity.
\<close>

lemma json_loads_escapes:
  \<open>json_loads [CHR 0x22, CHR 0x5C, CHR ''u'', CHR ''0'', CHR ''1'', CHR ''0'', CHR ''0'', CHR 0x22] =
     Some (JText [256])\<close>
  \<open>json_loads ([CHR 0x22, CHR 0x5C] @ ''ud83d'' @ [CHR 0x5C] @ ''ude00'' @ [CHR 0x22]) =
     Some (JText [128512])\<close>
  \<open>json_loads ([CHR 0x22, CHR 0x5C] @ ''ud83d'' @ [CHR 0x5C] @ ''u0041'' @ [CHR 0x22]) =
     Some (JText [55357, 65])\<close>
  by (simp_all add: json_loads_def eval_lex eval_pda)

lemma ten_power_small: "(1::real) / 10 ^ 400 < 2 powr (- 1075)"
proof -
  have "(2::real) ^ 1075 < 10 ^ 400"
    by simp
  then have "(1::real) / 10 ^ 400 < 1 / 2 ^ 1075"
    by (simp add: field_simps)
  also have "(1::real) / 2 ^ 1075 = 2 powr (- 1075)"
    by (simp add: powr_minus inverse_eq_divide)
  finally show ?thesis .
qed

lemma json_loads_underflow: \<open>json_loads ''1e-400'' = Some (JFloat 0)\<close>
proof -
  have "nearest (1 / 10 ^ 400) = 0"
    using ten_power_small by (intro nearest_underflow) simp
  then have "rnd (1 / 10 ^ 400) = Finite 0"
    by (simp add: rnd_def)
  then show ?thesis
    by (simp add: json_loads_def eval_lex eval_pda)
qed

lemma json_loads_overflow: \<open>json_loads ''1e400'' = Some (JNonFinite PosInfinity)\<close>
proof -
  have "(2::real) ^ 1024 \<le> 10 ^ 400"
    by simp
  then have "rnd (10 ^ 400) = NonFinite PosInfinity"
    by (rule rnd_overflow)
  then show ?thesis
    by (simp add: json_loads_def eval_lex eval_pda)
qed

section \<open>A truncated last object\<close>

text \<open>A well-formed object followed by one that lacks its closing brace.\<close>

definition truncated_text :: string where
  \<open>truncated_text = ''{"lat": 1, "lng": 2},{"lat": 3, "lng": 4''\<close>

text \<open>
  Every fragment either scan returns already opens and closes with a brace, so the
  branch \<^verbatim>\<open>if not obj.endswith('}'): obj += '}'\<close> of the loop is never taken.
\<close>

lemma auto_close_unreachable:
  assumes "f \<in> set (findall_lazy s) \<union> set (findall_flat s)"
  shows "startswith (strip f) (CHR ''{'') \<and> endswith (strip f) (CHR ''}'')"
proof -
  from assms have "braced f"
    by (auto dest: findall_lazy_braced findall_flat_braced)
  then show ?thesis
    by (simp add: strip_braced) (simp add: braced_def)
qed

text \<open>
  Claim C7 does not hold of the code. The truncated object is matched by neither
  pattern, so it never reaches the loop: it is not closed and decoded, although closing
  it gives a valid record, and nothing is printed about it. Only the count of the
  claim holds: the records returned are those of the well-formed objects.
\<close>

theorem truncated_object_dropped_silently:
  \<open>load_hike_data truncated_text = ([], Inr [JObj [(''lat'', JInt 1), (''lng'', JInt 2)]]) \<and>
   load_data_map2 truncated_text = ([], Inr [JObj [(''lat'', JInt 1), (''lng'', JInt 2)]]) \<and>
   load_hike_data (truncated_text @ '','') =
     ([], Inr [JObj [(''lat'', JInt 1), (''lng'', JInt 2)]]) \<and>
   load_data_map2 (truncated_text @ '','') =
     ([], Inr [JObj [(''lat'', JInt 1), (''lng'', JInt 2)]]) \<and>
   json_loads (''{"lat": 3, "lng": 4'' @ ''}'') =
     Some (JObj [(''lat'', JInt 3), (''lng'', JInt 4)])\<close>
  by (simp add: truncated_text_def eval_load eval_scan json_loads_def eval_lex eval_pda)

section \<open>Altitudes\<close>

text \<open>A record without an altitude.\<close>

definition bare_fix :: string where
  \<open>bare_fix = ''{"lat": 1, "lng": 2}''\<close>

text \<open>
  Claim C9 does not hold of \<^verbatim>\<open>map.py\<close>: it reads the altitude with a subscript, which
  raises \<^verbatim>\<open>KeyError\<close> on a record without one, where \<^verbatim>\<open>map2.py\<close> and \<^verbatim>\<open>map3.py\<close>
  read it with the default 0.
\<close>

theorem altitude_missing_raises:
  "load_hike_data bare_fix = ([], Inr [JObj [(''lat'', JInt 1), (''lng'', JInt 2)]]) \<and>
   altitudes_map [JObj [(''lat'', JInt 1), (''lng'', JInt 2)]] = Inl KeyError \<and>
   altitudes_get [JObj [(''lat'', JInt 1), (''lng'', JInt 2)]] = Inr [JInt 0]"
  by (simp add: bare_fix_def altitudes_map_def altitudes_get_def eval_load eval_scan
      json_loads_def eval_lex eval_pda)

text \<open>In \<^verbatim>\<open>map2.py\<close> and \<^verbatim>\<open>map3.py\<close> the altitude of a record defaults to 0 and never raises.\<close>

lemma altitudes_get_default:
  "py_get (JDict d) ''altitude'' (JInt 0) =
     Inr (case map_of d (codes ''altitude'') of None \<Rightarrow> JInt 0 | Some v \<Rightarrow> v)"
  by (simp add: py_get_def split: option.splits)

lemma altitudes_get_returns:
  "\<forall>p \<in> set hike_data. \<exists>d. p = JDict d \<Longrightarrow> \<exists>alts. altitudes_get hike_data = Inr alts"
  unfolding altitudes_get_def
  by (induction hike_data) (auto simp: ebind_def py_get_def split: option.splits)

end
